theory Spec2Isabelle
  imports Complex_Main
begin

section \<open>Common JavaScript notions\<close>

text \<open>
  The classes modelled here are \<open>DigestAuthentication\<close>, \<open>Transport\<close>, \<open>Publisher\<close> and
  \<open>UserAgent\<close>. Each section names the file that holds the class; line numbers are
  those of that file.
\<close>

text \<open>
  A JavaScript exception value. The sources throw plain \<open>Error\<close> objects with a message and
  \<open>StateTransitionError\<close> objects; an exception thrown by a callback or a collaborator that
  is not part of the modelled sources is an \<open>Error\<close> with whatever message it carries.
\<close>

datatype exn = Error string | StateTransitionError string

text \<open>
  Truthiness of an optional string (\<open>undefined\<close> is \<open>None\<close>): \<open>undefined\<close> and the empty
  string are falsy. String concatenation renders \<open>undefined\<close> as the text "undefined".
\<close>

definition truthy :: "string option \<Rightarrow> bool" where
  "truthy s = (case s of None \<Rightarrow> False | Some v \<Rightarrow> v \<noteq> [])"

definition str :: "string option \<Rightarrow> string" where
  "str s = (case s of None \<Rightarrow> ''undefined'' | Some v \<Rightarrow> v)"

section \<open>Digest authentication (class DigestAuthentication, src/src/core/messages/digest-authentication.ts)\<close>

text \<open>
  The parsed challenge of a 401/407 response. \<open>qop\<close> is an array of the offered values
  (the source comment: "'qop' can contain a list of values (Array)"); an array is truthy
  even when empty.
\<close>

record challenge =
  challenge_algorithm :: "string option"
  challenge_realm :: "string option"
  challenge_nonce :: "string option"
  challenge_opaque :: "string option"
  challenge_stale :: "bool option"
  challenge_qop :: "string list option"

text \<open>The two fields of the outgoing request that \<open>authenticate\<close> reads; the request URI
  is kept as its serialisation, which is what string concatenation uses.\<close>

record outgoingRequestMessage =
  request_method :: string
  request_ruri :: string

record digestAuthentication =
  stale :: "bool option"
  username :: "string option"
  password :: "string option"
  cnonce :: "string option"
  nc :: nat
  ncHex :: string
  response :: "string option"
  algorithm :: "string option"
  realm :: "string option"
  nonce :: "string option"
  opaque :: "string option"
  qop :: "string option"
  requestMethod :: "string option"
  uri :: "string option"

text \<open>The constructor: \<open>nc = 0\<close>, \<open>ncHex = "00000000"\<close>, every other field undefined.\<close>

definition newDigestAuthentication :: "string option \<Rightarrow> string option \<Rightarrow> digestAuthentication" where
  "newDigestAuthentication user pass =
     \<lparr> stale = None, username = user, password = pass, cnonce = None, nc = 0,
       ncHex = ''00000000'', response = None, algorithm = None, realm = None, nonce = None,
       opaque = None, qop = None, requestMethod = None, uri = None \<rparr>"

text \<open>\<open>Number.prototype.toString(16)\<close> on a non-negative integer: lower-case hexadecimal
  without leading zeros.\<close>

definition hexDigit :: "nat \<Rightarrow> char" where
  "hexDigit d = (''0123456789abcdef'') ! d"

function toString16 :: "nat \<Rightarrow> string" where
  "toString16 n = (if n < 16 then [hexDigit n] else toString16 (n div 16) @ [hexDigit (n mod 16)])"
  by pat_completeness auto
termination
  by (relation "measure id") auto

declare toString16.simps [simp del]

text \<open>
  \<open>updateNcHex\<close>: \<open>"00000000".substr(0, 8 - hex.length) + hex\<close>. A negative length gives
  the empty string in JavaScript, which is what \<open>take\<close> with the truncating subtraction of
  \<open>nat\<close> gives as well.
\<close>

definition updateNcHex :: "digestAuthentication \<Rightarrow> digestAuthentication" where
  "updateNcHex d =
     (let hex = toString16 (nc d)
      in d\<lparr>ncHex := take (8 - length hex) ''00000000'' @ hex\<rparr>)"

text \<open>
  \<open>calculateResponse\<close>. \<open>MD5\<close> is the function of the crypto-js package, a parameter here;
  its result is used through its hexadecimal rendering only.
\<close>

definition calculateResponse ::
  "(string \<Rightarrow> string) \<Rightarrow> string option \<Rightarrow> digestAuthentication \<Rightarrow> digestAuthentication" where
  "calculateResponse MD5 body d =
     (let ha1 = MD5 (str (username d) @ '':'' @ str (realm d) @ '':'' @ str (password d))
      in if qop d = Some ''auth'' then
           (let ha2 = MD5 (str (requestMethod d) @ '':'' @ str (uri d))
            in d\<lparr>response := Some (MD5 (ha1 @ '':'' @ str (nonce d) @ '':'' @ ncHex d @ '':''
                        @ str (cnonce d) @ '':auth:'' @ ha2))\<rparr>)
         else if qop d = Some ''auth-int'' then
           (let ha2 = MD5 (str (requestMethod d) @ '':'' @ str (uri d) @ '':''
                        @ MD5 (case body of None \<Rightarrow> [] | Some b \<Rightarrow> b))
            in d\<lparr>response := Some (MD5 (ha1 @ '':'' @ str (nonce d) @ '':'' @ ncHex d @ '':''
                        @ str (cnonce d) @ '':auth-int:'' @ ha2))\<rparr>)
         else if qop d = None then
           (let ha2 = MD5 (str (requestMethod d) @ '':'' @ str (uri d))
            in d\<lparr>response := Some (MD5 (ha1 @ '':'' @ str (nonce d) @ '':'' @ ha2))\<rparr>)
         else d)"

text \<open>
  The second half of \<open>authenticate\<close> ("Fill other attributes", lines 94 to 111), reached
  once the challenge has been validated and \<open>qop\<close> chosen. \<open>token\<close> is the value
  \<open>createRandomToken(12)\<close> returns in this call.
\<close>

definition authenticateFill ::
  "(string \<Rightarrow> string) \<Rightarrow> string \<Rightarrow> digestAuthentication \<Rightarrow> outgoingRequestMessage
     \<Rightarrow> string option \<Rightarrow> bool \<times> digestAuthentication" where
  "authenticateFill MD5 token d request body =
     (let d1 = d\<lparr>requestMethod := Some (request_method request), uri := Some (request_ruri request),
                 cnonce := Some token, nc := nc d + 1\<rparr>;
          d2 = updateNcHex d1;
          d3 = (if nc d2 = 4294967296 then d2\<lparr>nc := 1, ncHex := ''00000001''\<rparr> else d2)
      in (True, calculateResponse MD5 body d3))"

text \<open>
  \<open>authenticate\<close>. The result is the returned boolean and the object after the call. Warnings written to
  the logger are not part of the model.
\<close>

definition authenticate ::
  "(string \<Rightarrow> string) \<Rightarrow> string \<Rightarrow> digestAuthentication \<Rightarrow> outgoingRequestMessage \<Rightarrow> challenge
     \<Rightarrow> string option \<Rightarrow> bool \<times> digestAuthentication" where
  "authenticate MD5 token d request ch body =
     (let d1 = d\<lparr>algorithm := challenge_algorithm ch, realm := challenge_realm ch,
                 nonce := challenge_nonce ch, opaque := challenge_opaque ch,
                 stale := challenge_stale ch\<rparr>
      in if truthy (algorithm d1) \<and> algorithm d1 \<noteq> Some ''MD5'' then (False, d1)
         else
           (let d2 = (if truthy (algorithm d1) then d1 else d1\<lparr>algorithm := Some ''MD5''\<rparr>)
            in if \<not> truthy (realm d2) then (False, d2)
               else if \<not> truthy (nonce d2) then (False, d2)
               else
                 (case challenge_qop ch of
                    Some offered \<Rightarrow>
                      if ''auth'' \<in> set offered then
                        authenticateFill MD5 token (d2\<lparr>qop := Some ''auth''\<rparr>) request body
                      else if ''auth-int'' \<in> set offered then
                        authenticateFill MD5 token (d2\<lparr>qop := Some ''auth-int''\<rparr>) request body
                      else (False, d2)
                  | None \<Rightarrow> authenticateFill MD5 token (d2\<lparr>qop := None\<rparr>) request body)))"

section \<open>Transport (class Transport, in src/test/support/api/session-description-handler-mock.ts)\<close>

datatype TransportState = Connecting | Connected | Disconnecting | Disconnected

definition stateName :: "TransportState \<Rightarrow> string" where
  "stateName s = (case s of Connecting \<Rightarrow> ''Connecting'' | Connected \<Rightarrow> ''Connected''
                   | Disconnecting \<Rightarrow> ''Disconnecting'' | Disconnected \<Rightarrow> ''Disconnected'')"

text \<open>How a promise was settled.\<close>

datatype settlement = Resolved | Rejected exn

text \<open>
  The fields of a \<open>Transport\<close> object. Promises and WebSocket objects are values with an
  identity, so each is a number taken from \<open>nextId\<close>; \<open>connectResolve\<close> and
  \<open>connectReject\<close> hold the identity of the promise whose executor stored them. A timer
  handle is \<open>True\<close> when it is defined. \<open>settled\<close> lists the promises settled so far,
  in order, and \<open>closeRequested\<close> the sockets on which \<open>close(1000)\<close> was called.
  \<open>app\<close> stands for the variables of the application that its callbacks close over.
  The logger is left out.
\<close>

record 'u transport =
  state :: TransportState
  transitioningState :: bool
  connectPromise :: "nat option"
  connectResolve :: "nat option"
  connectReject :: "nat option"
  connectTimeout :: bool
  disconnectPromise :: "nat option"
  disconnectResolve :: "nat option"
  disconnectReject :: "nat option"
  ws :: "nat option"
  configurationKeepAliveInterval :: bool
  keepAliveInterval :: bool
  keepAliveDebounceTimeout :: bool
  nextId :: nat
  settled :: "(nat \<times> settlement) list"
  closeRequested :: "nat list"
  app :: 'u

text \<open>The constructor: \<open>Disconnected\<close>, no transition in progress, nothing else defined.\<close>

definition newTransport :: "bool \<Rightarrow> 'u \<Rightarrow> 'u transport" where
  "newTransport keepAlive u =
     \<lparr> state = Disconnected, transitioningState = False, connectPromise = None,
       connectResolve = None, connectReject = None, connectTimeout = False,
       disconnectPromise = None, disconnectResolve = None, disconnectReject = None,
       ws = None, configurationKeepAliveInterval = keepAlive, keepAliveInterval = False,
       keepAliveDebounceTimeout = False, nextId = 0, settled = [], closeRequested = [],
       app = u \<rparr>"

text \<open>
  A callback of the application (a state-change listener, \<open>onConnect\<close>, \<open>onDisconnect\<close>,
  a listener of the legacy events). The transport's fields are private, so a callback
  reaches the transport through \<open>connect()\<close>, \<open>disconnect()\<close> and \<open>send()\<close> only; lemma
  \<open>in_flight_call_leaves_transport\<close> below shows that the first two leave the transport
  as it is while a transition is in progress, and \<open>send()\<close> assigns no field. A callback
  is therefore a function that reads the transport it is called on and gives the new
  value of the application's variables and the exception it throws, if any.
\<close>

type_synonym 'u callback = "'u transport \<Rightarrow> 'u \<times> exn option"

text \<open>
  The callbacks registered on a transport: the listeners of the \<open>stateChange\<close> emitter
  (called in order by one \<open>emit\<close>, hence one function), the \<open>onConnect\<close> and
  \<open>onDisconnect\<close> properties (possibly undefined), and the listeners of the legacy
  events "connecting", "connected", "disconnecting", "disconnected".
\<close>

record 'u callbacks =
  stateListener :: "'u callback"
  onConnect :: "'u callback option"
  onDisconnect :: "(exn option \<Rightarrow> 'u callback) option"
  legacyListener :: "string \<Rightarrow> 'u callback"

definition noListener :: "'u callback" where
  "noListener t = (app t, None)"

definition noCallbacks :: "'u callbacks" where
  "noCallbacks = \<lparr> stateListener = noListener, onConnect = None, onDisconnect = None,
                    legacyListener = (\<lambda>name. noListener) \<rparr>"

text \<open>A statement that may throw: the exception, if any, and the object as the statement
  leaves it, whatever the object is. \<open>seq\<close> runs the rest only after a normal completion.\<close>

type_synonym 's stmt = "exn option \<times> 's"

definition invoke :: "'u callback \<Rightarrow> 'u transport \<Rightarrow> 'u transport stmt" where
  "invoke cb t = (case cb t of (u, x) \<Rightarrow> (x, t\<lparr>app := u\<rparr>))"

definition seq :: "'s stmt \<Rightarrow> ('s \<Rightarrow> 's stmt) \<Rightarrow> 's stmt" where
  "seq r k = (case r of (None, t) \<Rightarrow> k t | (Some x, t) \<Rightarrow> (Some x, t))"

definition settle :: "nat \<Rightarrow> settlement \<Rightarrow> 'u transport \<Rightarrow> 'u transport" where
  "settle p r t = t\<lparr>settled := settled t @ [(p, r)]\<rparr>"

definition transitionLoopDetectedError :: exn where
  "transitionLoopDetectedError = StateTransitionError ''Loop detected.''"

text \<open>The \<open>switch\<close> that validates a transition (lines 646 to 673), case by case.\<close>

fun validTransition :: "TransportState \<Rightarrow> TransportState \<Rightarrow> bool" where
  "validTransition Connecting newState =
     (\<not> (newState \<noteq> Connected \<and> newState \<noteq> Disconnecting \<and> newState \<noteq> Disconnected))"
| "validTransition Connected newState =
     (\<not> (newState \<noteq> Disconnecting \<and> newState \<noteq> Disconnected))"
| "validTransition Disconnecting newState =
     (\<not> (newState \<noteq> Connecting \<and> newState \<noteq> Disconnected))"
| "validTransition Disconnected newState = (\<not> (newState \<noteq> Connecting))"

definition startSendingKeepAlives :: "'u transport \<Rightarrow> 'u transport" where
  "startSendingKeepAlives t =
     (if configurationKeepAliveInterval t \<and> \<not> keepAliveInterval t
      then t\<lparr>keepAliveInterval := True\<rparr> else t)"

definition stopSendingKeepAlives :: "'u transport \<Rightarrow> 'u transport" where
  "stopSendingKeepAlives t = t\<lparr>keepAliveInterval := False, keepAliveDebounceTimeout := False\<rparr>"

text \<open>
  \<open>transitionState\<close> from the validation to the completion of the promises (lines 645 to
  773): everything between the assignment \<open>transitioningState = true\<close> and the
  assignment \<open>transitioningState = false\<close>.
\<close>

definition transitionBody ::
  "'u callbacks \<Rightarrow> TransportState \<Rightarrow> exn option \<Rightarrow> 'u transport \<Rightarrow> 'u transport stmt" where
  "transitionBody cbs newState error t =
     (if \<not> validTransition (state t) newState then
        (Some (Error (''Invalid state transition from '' @ stateName (state t) @ '' to ''
                       @ stateName newState)), t)
      else
        (let oldState = state t;
             t1 = t\<lparr>state := newState\<rparr>;
             connectResolve0 = connectResolve t1;
             connectReject0 = connectReject t1;
             t2 = (if oldState = Connecting
                   then t1\<lparr>connectPromise := None, connectResolve := None, connectReject := None\<rparr>
                   else t1);
             disconnectResolve0 = disconnectResolve t2;
             disconnectReject0 = disconnectReject t2;
             t3 = (if oldState = Disconnecting
                   then t2\<lparr>disconnectPromise := None, disconnectResolve := None,
                           disconnectReject := None\<rparr>
                   else t2);
             t4 = t3\<lparr>connectTimeout := False\<rparr>
         in seq (invoke (stateListener cbs) t4) (\<lambda>t5.
            seq (if newState = Connected then
                   (let t6 = startSendingKeepAlives t5
                    in case onConnect cbs of None \<Rightarrow> (None, t6) | Some f \<Rightarrow> invoke f t6)
                 else (None, t5)) (\<lambda>t7.
            seq (if oldState = Connected then
                   (let t8 = stopSendingKeepAlives t7
                    in case onDisconnect cbs of None \<Rightarrow> (None, t8) | Some f \<Rightarrow> invoke (f error) t8)
                 else (None, t7)) (\<lambda>t9.
            seq (invoke (legacyListener cbs (case newState of Connecting \<Rightarrow> ''connecting''
                           | Connected \<Rightarrow> ''connected'' | Disconnecting \<Rightarrow> ''disconnecting''
                           | Disconnected \<Rightarrow> ''disconnected'')) t9) (\<lambda>t10.
            seq (if oldState = Connecting then
                   (case connectResolve0 of
                      None \<Rightarrow> (Some (Error ''Connect resolve undefined.''), t10)
                    | Some res \<Rightarrow>
                       (case connectReject0 of
                          None \<Rightarrow> (Some (Error ''Connect reject undefined.''), t10)
                        | Some rej \<Rightarrow>
                            (None, if newState = Connected then settle res Resolved t10
                                   else settle rej (Rejected (case error of Some e \<Rightarrow> e
                                          | None \<Rightarrow> Error ''Connect aborted.'')) t10)))
                 else (None, t10)) (\<lambda>t11.
            (if oldState = Disconnecting then
               (case disconnectResolve0 of
                  None \<Rightarrow> (Some (Error ''Disconnect resolve undefined.''), t11)
                | Some res \<Rightarrow>
                   (case disconnectReject0 of
                      None \<Rightarrow> (Some (Error ''Disconnect reject undefined.''), t11)
                    | Some rej \<Rightarrow>
                        (None, if newState = Disconnected then settle res Resolved t11
                               else settle rej (Rejected (case error of Some e \<Rightarrow> e
                                      | None \<Rightarrow> Error ''Disconnect aborted.'')) t11)))
             else (None, t11)))))))))"

text \<open>
  \<open>transitionState\<close> (lines 636 to 775): the loop check, \<open>transitioningState = true\<close>, the
  body above and, when the body completes without an exception, \<open>transitioningState =
  false\<close>. An exception of the body leaves the flag set.
\<close>

definition transitionState ::
  "'u callbacks \<Rightarrow> TransportState \<Rightarrow> exn option \<Rightarrow> 'u transport \<Rightarrow> 'u transport stmt" where
  "transitionState cbs newState error t =
     (if transitioningState t then (Some transitionLoopDetectedError, t)
      else seq (transitionBody cbs newState error (t\<lparr>transitioningState := True\<rparr>))
               (\<lambda>t'. (None, t'\<lparr>transitioningState := False\<rparr>)))"

text \<open>
  What a call of \<open>connect()\<close> or \<open>disconnect()\<close> gives its caller: an exception thrown
  synchronously, an already rejected promise, an already resolved promise, the pending
  promise stored in the object, or (when the WebSocket constructor throws) a promise
  that a later microtask rejects after moving the transport to \<open>Disconnected\<close>.
\<close>

datatype callResult =
  Throws exn | Rejects exn | ResolvesNow | Returns nat | RejectsAfterDisconnected exn

text \<open>\<open>try { this.transitionState(s) } catch (e) { if (e instanceof StateTransitionError)
  return Promise.reject(e); throw e; }\<close>, followed by \<open>rest\<close> when nothing was thrown.\<close>

definition tryTransition ::
  "'u callbacks \<Rightarrow> TransportState \<Rightarrow> 'u transport
     \<Rightarrow> ('u transport \<Rightarrow> callResult \<times> 'u transport) \<Rightarrow> callResult \<times> 'u transport" where
  "tryTransition cbs newState t rest =
     (case transitionState cbs newState None t of
        (Some (StateTransitionError m), t') \<Rightarrow> (Rejects (StateTransitionError m), t')
      | (Some (Error m), t') \<Rightarrow> (Throws (Error m), t')
      | (None, t') \<Rightarrow> rest t')"

text \<open>
  \<open>_connect\<close>. \<open>wsNew\<close> is what \<open>new WebSocket(...)\<close> does in this call: \<open>None\<close> when it
  returns a socket, \<open>Some e\<close> when it throws \<open>e\<close>.
\<close>

definition connectOpen :: "exn option \<Rightarrow> 'u transport \<Rightarrow> callResult \<times> 'u transport" where
  "connectOpen wsNew t =
     (case wsNew of
        Some e \<Rightarrow> (RejectsAfterDisconnected e, t\<lparr>ws := None\<rparr>)
      | None \<Rightarrow>
          (let w = nextId t; p = nextId t + 1
           in (Returns p, t\<lparr>ws := Some w, connectPromise := Some p, connectResolve := Some p,
                              connectReject := Some p, connectTimeout := True,
                              nextId := nextId t + 2\<rparr>)))"

definition connect_impl ::
  "'u callbacks \<Rightarrow> exn option \<Rightarrow> 'u transport \<Rightarrow> callResult \<times> 'u transport" where
  "connect_impl cbs wsNew t =
     (case state t of
        Connecting \<Rightarrow>
          if transitioningState t then (Rejects transitionLoopDetectedError, t)
          else (case connectPromise t of
                  None \<Rightarrow> (Throws (Error ''Connect promise must be defined.''), t)
                | Some p \<Rightarrow> (Returns p, t))
      | Connected \<Rightarrow>
          if transitioningState t then (Rejects transitionLoopDetectedError, t)
          else if connectPromise t \<noteq> None
          then (Throws (Error ''Connect promise must not be defined.''), t)
          else (ResolvesNow, t)
      | Disconnecting \<Rightarrow>
          if connectPromise t \<noteq> None
          then (Throws (Error ''Connect promise must not be defined.''), t)
          else tryTransition cbs Connecting t (connectOpen wsNew)
      | Disconnected \<Rightarrow>
          if connectPromise t \<noteq> None
          then (Throws (Error ''Connect promise must not be defined.''), t)
          else tryTransition cbs Connecting t (connectOpen wsNew))"

text \<open>The microtask queued by \<open>_connect\<close> when the WebSocket constructor threw \<open>error\<close>: the
  transition to \<open>Disconnected\<close>, then \<open>throw error\<close>. The result is the reason the promise
  is rejected with.\<close>

definition connectFailureTask :: "'u callbacks \<Rightarrow> exn \<Rightarrow> 'u transport \<Rightarrow> exn \<times> 'u transport" where
  "connectFailureTask cbs error t =
     (case transitionState cbs Disconnected (Some error) t of
        (Some x, t') \<Rightarrow> (x, t')
      | (None, t') \<Rightarrow> (error, t'))"

text \<open>
  \<open>_disconnect\<close>. \<open>wsClose\<close> is what \<open>ws.close(1000)\<close> does in this call (\<open>Some e\<close> when it
  throws \<open>e\<close>, which the promise executor turns into a rejection of the new promise).
\<close>

definition disconnectClose :: "exn option \<Rightarrow> 'u transport \<Rightarrow> callResult \<times> 'u transport" where
  "disconnectClose wsClose t =
     (case ws t of
        None \<Rightarrow> (Throws (Error ''WebSocket must be defined.''), t)
      | Some w \<Rightarrow>
          (let p = nextId t;
               t1 = t\<lparr>disconnectPromise := Some p, disconnectResolve := Some p,
                       disconnectReject := Some p, nextId := nextId t + 1\<rparr>
           in case wsClose of
                None \<Rightarrow> (Returns p, t1\<lparr>closeRequested := closeRequested t1 @ [w]\<rparr>)
              | Some e \<Rightarrow> (Returns p, settle p (Rejected e) t1)))"

definition disconnect_impl ::
  "'u callbacks \<Rightarrow> exn option \<Rightarrow> 'u transport \<Rightarrow> callResult \<times> 'u transport" where
  "disconnect_impl cbs wsClose t =
     (case state t of
        Connecting \<Rightarrow>
          if disconnectPromise t \<noteq> None
          then (Throws (Error ''Disconnect promise must not be defined.''), t)
          else tryTransition cbs Disconnecting t (disconnectClose wsClose)
      | Connected \<Rightarrow>
          if disconnectPromise t \<noteq> None
          then (Throws (Error ''Disconnect promise must not be defined.''), t)
          else tryTransition cbs Disconnecting t (disconnectClose wsClose)
      | Disconnecting \<Rightarrow>
          if transitioningState t then (Rejects transitionLoopDetectedError, t)
          else (case disconnectPromise t of
                  None \<Rightarrow> (Throws (Error ''Disconnect promise must be defined.''), t)
                | Some p \<Rightarrow> (Returns p, t))
      | Disconnected \<Rightarrow>
          if transitioningState t then (Rejects transitionLoopDetectedError, t)
          else if disconnectPromise t \<noteq> None
          then (Throws (Error ''Disconnect promise must not be defined.''), t)
          else (ResolvesNow, t))"

text \<open>\<open>connect()\<close> and \<open>disconnect()\<close>, the public methods, return what \<open>_connect\<close> and
  \<open>_disconnect\<close> return.\<close>

definition connect :: "'u callbacks \<Rightarrow> exn option \<Rightarrow> 'u transport \<Rightarrow> callResult \<times> 'u transport" where
  "connect cbs wsNew t = connect_impl cbs wsNew t"

definition disconnect :: "'u callbacks \<Rightarrow> exn option \<Rightarrow> 'u transport \<Rightarrow> callResult \<times> 'u transport" where
  "disconnect cbs wsClose t = disconnect_impl cbs wsClose t"

text \<open>
  The WebSocket event handlers. \<open>w\<close> is the socket the event comes from; an event of a
  socket that is no longer the transport's is ignored. An exception they throw goes to
  the event loop.
\<close>

definition onWebSocketClose :: "'u callbacks \<Rightarrow> nat \<Rightarrow> string \<Rightarrow> 'u transport \<Rightarrow> 'u transport stmt" where
  "onWebSocketClose cbs w message t =
     (if ws t \<noteq> Some w then (None, t)
      else
        (let error = (if disconnectPromise t = None then Some (Error message) else None)
         in transitionState cbs Disconnected error (t\<lparr>ws := None\<rparr>)))"

definition onWebSocketOpen :: "'u callbacks \<Rightarrow> nat \<Rightarrow> 'u transport \<Rightarrow> 'u transport stmt" where
  "onWebSocketOpen cbs w t =
     (if ws t \<noteq> Some w then (None, t)
      else if state t = Connecting then transitionState cbs Connected None t
      else (None, t))"

text \<open>Everything that can happen to a transport and reaches \<open>transitionState\<close>.\<close>

datatype event =
  CallConnect "exn option"
| CallDisconnect "exn option"
| ConnectFailure exn
| WebSocketOpen nat
| WebSocketClose nat string

definition handle :: "'u callbacks \<Rightarrow> event \<Rightarrow> 'u transport \<Rightarrow> 'u transport" where
  "handle cbs ev t =
     (case ev of
        CallConnect wsNew \<Rightarrow> snd (connect cbs wsNew t)
      | CallDisconnect wsClose \<Rightarrow> snd (disconnect cbs wsClose t)
      | ConnectFailure e \<Rightarrow> snd (connectFailureTask cbs e t)
      | WebSocketOpen w \<Rightarrow> snd (onWebSocketOpen cbs w t)
      | WebSocketClose w m \<Rightarrow> snd (onWebSocketClose cbs w m t))"

section \<open>JavaScript numbers\<close>

text \<open>
  What \<open>Number(...)\<close> can give: not-a-number, the two infinities, or a finite number, held
  as a real (rounding is not modelled). Comparisons with \<open>NaN\<close> are false and a product
  with \<open>NaN\<close> is \<open>NaN\<close>, as in JavaScript.
\<close>

datatype jsnum = NaN | NegInfinity | Num real | PosInfinity

fun js_le :: "jsnum \<Rightarrow> jsnum \<Rightarrow> bool" where
  "js_le NaN b = False"
| "js_le a NaN = False"
| "js_le NegInfinity b = True"
| "js_le a PosInfinity = True"
| "js_le (Num a) (Num b) = (a \<le> b)"
| "js_le a b = False"

fun js_lt :: "jsnum \<Rightarrow> jsnum \<Rightarrow> bool" where
  "js_lt NaN b = False"
| "js_lt a NaN = False"
| "js_lt (Num a) (Num b) = (a < b)"
| "js_lt NegInfinity b = (b \<noteq> NegInfinity)"
| "js_lt a PosInfinity = (a \<noteq> PosInfinity)"
| "js_lt a b = False"

fun js_times :: "jsnum \<Rightarrow> jsnum \<Rightarrow> jsnum" where
  "js_times NaN b = NaN"
| "js_times a NaN = NaN"
| "js_times (Num a) (Num b) = Num (a * b)"
| "js_times (Num a) PosInfinity = (if a = 0 then NaN else if 0 < a then PosInfinity else NegInfinity)"
| "js_times (Num a) NegInfinity = (if a = 0 then NaN else if 0 < a then NegInfinity else PosInfinity)"
| "js_times PosInfinity (Num b) = (if b = 0 then NaN else if 0 < b then PosInfinity else NegInfinity)"
| "js_times NegInfinity (Num b) = (if b = 0 then NaN else if 0 < b then NegInfinity else PosInfinity)"
| "js_times PosInfinity PosInfinity = PosInfinity"
| "js_times NegInfinity NegInfinity = PosInfinity"
| "js_times PosInfinity NegInfinity = NegInfinity"
| "js_times NegInfinity PosInfinity = NegInfinity"

section \<open>Publisher (class Publisher, src/src/api/publisher.ts)\<close>

datatype PublisherState = Initial | Published | Unpublished | Terminated

definition publisherStateName :: "PublisherState \<Rightarrow> string" where
  "publisherStateName s = (case s of Initial \<Rightarrow> ''Initial'' | Published \<Rightarrow> ''Published''
                             | Unpublished \<Rightarrow> ''Unpublished'' | Terminated \<Rightarrow> ''Terminated'')"

text \<open>
  What a publisher does to the outside, in order: a warning to the logger, a "progress"
  event, a PUBLISH request handed to the user agent core (with its \<open>Expires\<close> value, its
  \<open>SIP-If-Match\<close> value and its body), a state event to the listeners, the removal of the
  publisher from the user agent's collection.
\<close>

datatype publisherEffect =
  Warn string
| EmitProgress
| SendPublish jsnum "string option" "string option"
| StateEvent PublisherState
| RemovedFromUserAgent

text \<open>
  The fields of a \<open>Publisher\<close> that its methods read and write. \<open>publishRefreshTimer\<close> is
  the delay in milliseconds of the pending timer, when there is one.
\<close>

record publisher =
  options_expires :: jsnum
  options_body :: "string option"
  options_unpublishOnClose :: bool
  pubRequestBody :: "string option"
  pubRequestExpires :: jsnum
  pubRequestEtag :: "string option"
  publishRefreshTimer :: "jsnum option"
  disposed :: bool
  publisherState :: PublisherState
  effects :: "publisherEffect list"

text \<open>
  What \<open>receiveResponse\<close> reads of a response: the status code, the \<open>SIP-ETag\<close> header
  when the response has one, and \<open>Number(...)\<close> of the \<open>Expires\<close> and \<open>Min-Expires\<close>
  headers when the response has them.
\<close>

record incomingResponseMessage =
  statusCode :: nat
  sipETag :: "string option"
  expiresHeader :: "jsnum option"
  minExpiresHeader :: "jsnum option"

definition effect :: "publisherEffect \<Rightarrow> publisher \<Rightarrow> publisher" where
  "effect e p = p\<lparr>effects := effects p @ [e]\<rparr>"

definition clearRefreshTimer :: "publisher \<Rightarrow> publisher" where
  "clearRefreshTimer p = (if publishRefreshTimer p \<noteq> None then p\<lparr>publishRefreshTimer := None\<rparr> else p)"

definition sendPublishRequest :: "publisher \<Rightarrow> publisher" where
  "sendPublishRequest p = effect (SendPublish (pubRequestExpires p) (pubRequestEtag p) (pubRequestBody p)) p"

definition publish :: "string option \<Rightarrow> publisher \<Rightarrow> publisher" where
  "publish content p =
     (let p1 = clearRefreshTimer p;
          p2 = p1\<lparr>options_body := content, pubRequestBody := content\<rparr>;
          p3 = (if pubRequestExpires p2 = Num 0
                then p2\<lparr>pubRequestExpires := options_expires p2, pubRequestEtag := None\<rparr>
                else p2)
      in sendPublishRequest p3)"

definition unpublish :: "publisher \<Rightarrow> publisher" where
  "unpublish p =
     (let p1 = clearRefreshTimer p;
          p2 = p1\<lparr>pubRequestBody := None, pubRequestExpires := Num 0\<rparr>
      in if pubRequestEtag p2 \<noteq> None then sendPublishRequest p2 else p2)"

definition dispose :: "publisher \<Rightarrow> publisher" where
  "dispose p =
     (if disposed p then p
      else
        (let p1 = effect RemovedFromUserAgent (p\<lparr>disposed := True\<rparr>)
         in if options_unpublishOnClose p1 \<and> publisherState p1 = Published then unpublish p1
            else (clearRefreshTimer p1)\<lparr>pubRequestBody := None, pubRequestExpires := Num 0,
                                        pubRequestEtag := None\<rparr>))"

text \<open>
  The constructor, as far as these fields go: \<open>expires\<close> is \<open>options.expires\<close> after
  the constructor has replaced anything but an integer by 3600, \<open>unpublishOnClose\<close> is
  \<open>options.unpublishOnClose\<close> after it has replaced anything but a boolean by \<open>true\<close>.
\<close>

definition newPublisher :: "jsnum \<Rightarrow> string option \<Rightarrow> bool \<Rightarrow> publisher" where
  "newPublisher expires content unpublishOnClose =
     \<lparr> options_expires = expires, options_body = content,
       options_unpublishOnClose = unpublishOnClose, pubRequestBody = None,
       pubRequestExpires = expires, pubRequestEtag = None, publishRefreshTimer = None,
       disposed = False, publisherState = Initial, effects = [] \<rparr>"

text \<open>\<open>refreshRequest\<close>, what the refresh timer calls when it fires.\<close>

definition refreshRequest :: "publisher \<Rightarrow> publisher stmt" where
  "refreshRequest p =
     (let p1 = (clearRefreshTimer p)\<lparr>pubRequestBody := None\<rparr>
      in if pubRequestEtag p1 = None then (Some (Error ''Etag undefined''), p1)
         else if pubRequestExpires p1 = Num 0 then (Some (Error ''Expires zero''), p1)
         else (None, sendPublishRequest p1))"

text \<open>The \<open>switch\<close> of \<open>stateTransition\<close> that validates a transition, case by case.\<close>

fun validPublisherTransition :: "PublisherState \<Rightarrow> PublisherState \<Rightarrow> bool" where
  "validPublisherTransition Initial newState =
     (\<not> (newState \<noteq> Published \<and> newState \<noteq> Unpublished \<and> newState \<noteq> Terminated))"
| "validPublisherTransition Published newState =
     (\<not> (newState \<noteq> Unpublished \<and> newState \<noteq> Terminated))"
| "validPublisherTransition Unpublished newState =
     (\<not> (newState \<noteq> Published \<and> newState \<noteq> Terminated))"
| "validPublisherTransition Terminated newState = False"

definition stateTransition :: "PublisherState \<Rightarrow> publisher \<Rightarrow> publisher stmt" where
  "stateTransition newState p =
     (if \<not> validPublisherTransition (publisherState p) newState then
        (Some (Error (''Invalid state transition from '' @ publisherStateName (publisherState p)
                       @ '' to '' @ publisherStateName newState)), p)
      else
        (let p1 = effect (StateEvent newState) (p\<lparr>publisherState := newState\<rparr>)
         in (None, if newState = Terminated then dispose p1 else p1)))"

text \<open>\<open>this.pubRequestExpires = 0; stateTransition(Unpublished); stateTransition(Terminated)\<close>,
  the end of every branch of \<open>receiveResponse\<close> that gives up.\<close>

definition giveUp :: "publisher \<Rightarrow> publisher stmt" where
  "giveUp p = seq (stateTransition Unpublished (p\<lparr>pubRequestExpires := Num 0\<rparr>))
                  (stateTransition Terminated)"

text \<open>The branch of \<open>receiveResponse\<close> for a 200-class response (lines 207 to 234).\<close>

definition receive2xx :: "incomingResponseMessage \<Rightarrow> publisher \<Rightarrow> publisher stmt" where
  "receive2xx rsp p =
     (let p1 = (case sipETag rsp of
                  Some etag \<Rightarrow> p\<lparr>pubRequestEtag := Some etag\<rparr>
                | None \<Rightarrow> effect (Warn ''SIP-ETag header missing in a 200-class response to PUBLISH'') p);
          p2 = (case expiresHeader rsp of
                  Some expires \<Rightarrow>
                    if js_le (Num 0) expires \<and> js_le expires (pubRequestExpires p1)
                    then p1\<lparr>pubRequestExpires := expires\<rparr>
                    else effect (Warn ''Bad Expires header in a 200-class response to PUBLISH'') p1
                | None \<Rightarrow> effect (Warn ''Expires header missing in a 200-class response to PUBLISH'') p1)
      in if pubRequestExpires p2 \<noteq> Num 0 then
           stateTransition Published
             (p2\<lparr>publishRefreshTimer := Some (js_times (pubRequestExpires p2) (Num 900))\<rparr>)
         else stateTransition Unpublished p2)"

text \<open>
  \<open>receiveResponse\<close>. The regular expressions select the status codes 100 to 199, 200 to
  299, 412 and 423. In the branch for 423 the test \<open>typeof minExpires === "number" || ...\<close>
  is true of every value of \<open>Number(...)\<close>, so its \<open>else\<close> is never taken. The final
  clean-up runs only when no branch threw.
\<close>

definition receiveResponse :: "incomingResponseMessage \<Rightarrow> publisher \<Rightarrow> publisher stmt" where
  "receiveResponse rsp p =
     seq (if 100 \<le> statusCode rsp \<and> statusCode rsp \<le> 199 then
            (None, effect EmitProgress p)
          else if 200 \<le> statusCode rsp \<and> statusCode rsp \<le> 299 then
            receive2xx rsp p
          else if statusCode rsp = 412 then
            (if pubRequestEtag p \<noteq> None \<and> pubRequestExpires p \<noteq> Num 0 then
               (None, publish (options_body p)
                        (effect EmitProgress
                           (effect (Warn ''412 response to PUBLISH, recovering'')
                              (p\<lparr>pubRequestEtag := None\<rparr>))))
             else giveUp (effect (Warn ''412 response to PUBLISH, recovery failed'') p))
          else if statusCode rsp = 423 then
            (case minExpiresHeader rsp of
               Some minExpires \<Rightarrow>
                 if pubRequestExpires p \<noteq> Num 0 then
                   (None, publish (options_body p)
                            (effect EmitProgress
                               (effect (Warn ''423 code in response to PUBLISH, adjusting the Expires value and trying to recover'')
                                  (p\<lparr>pubRequestExpires := minExpires\<rparr>))))
                 else giveUp (effect (Warn ''423 response to PUBLISH, recovery failed'') p)
             | None \<Rightarrow> giveUp (effect (Warn ''423 response to PUBLISH, recovery failed'') p))
          else giveUp p)
       (\<lambda>p'. (None,
          if pubRequestExpires p' = Num 0
          then (clearRefreshTimer p')\<lparr>pubRequestBody := None, pubRequestEtag := None\<rparr>
          else p'))"

section \<open>User agent (class UserAgent, in src/src/api/publisher.ts)\<close>

datatype UserAgentState = Started | Stopped

datatype SIPExtension = Required | Supported | Unsupported

text \<open>The four kinds of clients and dialogs a user agent keeps a collection of.\<close>

datatype collection = Registerers | Sessions | Subscriptions | Publishers

text \<open>
  What \<open>stop()\<close> and the delegate of the user agent core do to the outside, in order.
\<close>

datatype userAgentAction =
  StateChange UserAgentState
| Dispose collection string
| DisposeTransport
| DisposeCore
| NewInvitation
| Trying
| Reject nat
| SetReplacee string
| DeliverInvitation
| ProgressThenDeliverInvitation

record dialog =
  early :: bool

text \<open>
  The fields of a \<open>UserAgent\<close> that the modelled methods read and write. Each of the four
  collections is an object used as a dictionary; it is held as the list of its entries
  in the order \<open>for ... in\<close> enumerates them. \<open>Registerer\<close>, \<open>Session\<close> and
  \<open>Subscription\<close> are not among the sources and \<open>dispose()\<close> of any of the four ends in
  code outside the user agent, so an entry holds, beside its id, how the promise returned
  by its \<open>dispose()\<close> is settled. \<open>transportDispose\<close> is how the promise of
  \<open>transport.dispose()\<close> is settled, \<open>stateListenerThrows\<close> the exception the listeners of
  the state emitter throw, if any. \<open>delegate_defined\<close> and \<open>delegate_onInvite\<close> say whether
  \<open>this.delegate\<close> and \<open>this.delegate.onInvite\<close> are defined, \<open>dialogs\<close> is the dialog
  table of the user agent core. The logger and the window's unload listener are left out.
\<close>

record userAgent =
  userAgentState :: UserAgentState
  publishers_of :: "(string \<times> settlement) list"
  registerers_of :: "(string \<times> settlement) list"
  sessions_of :: "(string \<times> settlement) list"
  subscriptions_of :: "(string \<times> settlement) list"
  transportDispose :: settlement
  stateListenerThrows :: "exn option"
  options_sipjsId :: string
  options_viaHost :: string
  options_sipExtensionReplaces :: SIPExtension
  delegate_defined :: bool
  delegate_onInvite :: bool
  dialogs :: "string \<rightharpoonup> dialog"
  actions :: "userAgentAction list"

definition act :: "userAgentAction \<Rightarrow> userAgent \<Rightarrow> userAgent" where
  "act a ua = ua\<lparr>actions := actions ua @ [a]\<rparr>"

definition userAgentStateName :: "UserAgentState \<Rightarrow> string" where
  "userAgentStateName s = (case s of Started \<Rightarrow> ''Started'' | Stopped \<Rightarrow> ''Stopped'')"

text \<open>\<open>UserAgent.transitionState\<close> (lines 1430 to 1455).\<close>

definition userAgentTransitionState :: "UserAgentState \<Rightarrow> userAgent \<Rightarrow> userAgent stmt" where
  "userAgentTransitionState newState ua =
     (if (case userAgentState ua of Started \<Rightarrow> newState \<noteq> Stopped | Stopped \<Rightarrow> newState \<noteq> Started)
      then (Some (Error (''Invalid state transition from '' @ userAgentStateName (userAgentState ua)
                          @ '' to '' @ userAgentStateName newState)), ua)
      else (stateListenerThrows ua, act (StateChange newState) (ua\<lparr>userAgentState := newState\<rparr>)))"

text \<open>\<open>delete this._registerers[id]\<close> and its three siblings.\<close>

definition deleteEntry :: "collection \<Rightarrow> string \<Rightarrow> userAgent \<Rightarrow> userAgent" where
  "deleteEntry c ident ua =
     (case c of
        Registerers \<Rightarrow> ua\<lparr>registerers_of := filter (\<lambda>e. fst e \<noteq> ident) (registerers_of ua)\<rparr>
      | Sessions \<Rightarrow> ua\<lparr>sessions_of := filter (\<lambda>e. fst e \<noteq> ident) (sessions_of ua)\<rparr>
      | Subscriptions \<Rightarrow> ua\<lparr>subscriptions_of := filter (\<lambda>e. fst e \<noteq> ident) (subscriptions_of ua)\<rparr>
      | Publishers \<Rightarrow> ua\<lparr>publishers_of := filter (\<lambda>e. fst e \<noteq> ident) (publishers_of ua)\<rparr>)"

text \<open>
  One of the four loops of \<open>stop()\<close> over the local copy of a collection: \<open>await
  entry.dispose().catch(...)\<close> for each entry in turn. A disposal that resolves has
  removed the entry from the user agent's collection (\<open>Publisher.dispose\<close> does so in the
  sources); one that rejects has the \<open>catch\<close> remove it and throw the error again, which
  ends \<open>stop()\<close>.
\<close>

fun disposeAll :: "collection \<Rightarrow> (string \<times> settlement) list \<Rightarrow> userAgent \<Rightarrow> userAgent stmt" where
  "disposeAll c [] ua = (None, ua)"
| "disposeAll c ((ident, outcome) # rest) ua =
     (let ua1 = deleteEntry c ident (act (Dispose c ident) ua)
      in case outcome of
           Resolved \<Rightarrow> disposeAll c rest ua1
         | Rejected e \<Rightarrow> (Some e, ua1))"

text \<open>
  \<open>stop()\<close>, an \<open>async\<close> function: the result is how the promise it returns is settled,
  once every awaited promise has been. What else may run between two of its steps is
  not modelled.
\<close>

definition stop :: "userAgent \<Rightarrow> settlement \<times> userAgent" where
  "stop ua =
     (if userAgentState ua = Stopped then (Resolved, ua)
      else
        (let publishers = publishers_of ua;
             registerers = registerers_of ua;
             sessions = sessions_of ua;
             subscriptions = subscriptions_of ua
         in case
              seq (userAgentTransitionState Stopped ua) (\<lambda>ua1.
              seq (disposeAll Registerers registerers ua1) (\<lambda>ua2.
              seq (disposeAll Sessions sessions ua2) (\<lambda>ua3.
              seq (disposeAll Subscriptions subscriptions ua3) (\<lambda>ua4.
              seq (disposeAll Publishers publishers ua4) (\<lambda>ua5.
              seq (case transportDispose ua5 of
                     Resolved \<Rightarrow> (None, act DisposeTransport ua5)
                   | Rejected e \<Rightarrow> (Some e, act DisposeTransport ua5)) (\<lambda>ua6.
              (None, act DisposeCore ua6)))))))
            of (None, ua') \<Rightarrow> (Resolved, ua')
             | (Some e, ua') \<Rightarrow> (Rejected e, ua')))"

subsection \<open>Incoming messages\<close>

datatype messageKind = IncomingRequest | IncomingResponse

text \<open>
  What \<open>onTransportMessage\<close> reads of a parsed message: its class, its \<open>hasHeader\<close> method,
  its to-tag, its Call-ID, its body, the value of its \<open>Content-Length\<close> header, the
  number of its \<open>Via\<close> headers and the host and port of the first.
\<close>

record incomingMessage =
  kind :: messageKind
  hasHeader :: "string \<Rightarrow> bool"
  message_toTag :: "string option"
  message_callId :: string
  message_body :: string
  contentLength :: "string option"
  viaCount :: nat
  viaHost :: string
  viaPort :: "nat option"

text \<open>
  Modelled from the spec: \<open>str_utf8_length\<close> of core/messages/utils, which is not among
  the sources; section 4.1 (d) has the body length computed as the UTF-8 byte length.
  A body is held as the sequence of its UTF-8 bytes, so that is its length.
\<close>

definition str_utf8_length :: "string \<Rightarrow> nat" where
  "str_utf8_length b = length b"

text \<open>What becomes of an incoming message.\<close>

datatype disposition =
  Dropped
| ReplyStateless nat
| ReceiveIncomingRequestFromTransport
| ReceiveIncomingResponseFromTransport

definition hasMinimumHeaders :: "incomingMessage \<Rightarrow> bool" where
  "hasMinimumHeaders message = list_all (hasHeader message) [''from'', ''to'', ''call_id'', ''cseq'', ''via'']"

text \<open>
  \<open>onTransportMessage\<close>. \<open>parsed\<close> is what \<open>Parser.parseMessage\<close> returns (\<open>None\<close> when it
  fails); \<open>toNumber\<close> is JavaScript's \<open>Number\<close> on strings. The final \<open>throw\<close> of the
  source is not reachable, a parsed message being a request or a response.
\<close>

definition onTransportMessage ::
  "(string \<Rightarrow> jsnum) \<Rightarrow> userAgent \<Rightarrow> incomingMessage option \<Rightarrow> disposition" where
  "onTransportMessage toNumber ua parsed =
     (case parsed of
        None \<Rightarrow> Dropped
      | Some message \<Rightarrow>
          if userAgentState ua = Stopped \<and> kind message = IncomingRequest then Dropped
          else
            (case kind message of
               IncomingRequest \<Rightarrow>
                 if \<not> hasMinimumHeaders message then Dropped
                 else if \<not> truthy (message_toTag message) \<and> take 5 (message_callId message) = options_sipjsId ua
                 then ReplyStateless 482
                 else if truthy (contentLength message)
                         \<and> js_lt (Num (real (str_utf8_length (message_body message))))
                                 (toNumber (str (contentLength message)))
                 then ReplyStateless 400
                 else ReceiveIncomingRequestFromTransport
             | IncomingResponse \<Rightarrow>
                 if \<not> hasMinimumHeaders message then Dropped
                 else if viaCount message > 1 then Dropped
                 else if viaHost message \<noteq> options_viaHost ua \<or> viaPort message \<noteq> None then Dropped
                 else if truthy (contentLength message)
                         \<and> js_lt (Num (real (str_utf8_length (message_body message))))
                                 (toNumber (str (contentLength message)))
                 then Dropped
                 else ReceiveIncomingResponseFromTransport))"

subsection \<open>Incoming INVITE\<close>

text \<open>
  The parsed \<open>Replaces\<close> header: a field that is not a string is \<open>None\<close>; \<open>early_only\<close>
  says whether the field of that name is \<open>true\<close>.
\<close>

record replacesHeader =
  call_id :: "string option"
  replaces_to_tag :: "string option"
  replaces_from_tag :: "string option"
  early_only :: bool

text \<open>
  What the handler reads of an incoming INVITE and of the invitation made for it: the
  Call-ID and the From tag of the request, its parsed \<open>Replaces\<close> header, whether the
  invitation sends a provisional response by itself, and how the promise of the
  invitation's \<open>dispose()\<close> would be settled (what an entry of the session collection
  holds).
\<close>

record incomingInviteRequest =
  invite_callId :: string
  invite_fromTag :: string
  replaces :: "replacesHeader option"
  autoSendAnInitialProvisionalResponse :: bool
  invitation_dispose :: settlement

text \<open>\<open>collection[ident] = value\<close>: the value of an existing key is replaced where it
  stands, a new key is enumerated last. (A key that is the decimal form of an array index
  is enumerated before the others in JavaScript; the handler only looks keys up, where
  the order plays no part.)\<close>

definition setEntry :: "string \<Rightarrow> 'v \<Rightarrow> (string \<times> 'v) list \<Rightarrow> (string \<times> 'v) list" where
  "setEntry ident v entries =
     (if ident \<in> fst ` set entries
      then map (\<lambda>e. if fst e = ident then (ident, v) else e) entries
      else entries @ [(ident, v)])"

text \<open>
  Modelled from the spec: the id of an \<open>Invitation\<close> (api/invitation, api/session), a
  class that is not among the sources. Section 3 has the user agent own a collection
  that maps unique string ids to its sessions; the id of an invitation is the Call-ID of
  its INVITE followed by its From tag, the kind of key line 1202 looks sessions up by.
\<close>

definition invitationId :: "incomingInviteRequest \<Rightarrow> string" where
  "invitationId request = invite_callId request @ invite_fromTag request"

text \<open>
  Modelled from the spec: the constructor of \<open>Invitation\<close>, which is not among the
  sources. Section 4.7 has the invitation constructed when an INVITE is dispatched, and
  section 3 has each session owned by the collection of the user agent until its terminal
  state: the constructor stores the invitation in \<open>_sessions\<close> under its id, as the
  \<open>Publisher\<close> constructor does with its own id in \<open>_publishers\<close> (line 109).
\<close>

definition newInvitation :: "incomingInviteRequest \<Rightarrow> userAgent \<Rightarrow> userAgent" where
  "newInvitation request ua =
     act NewInvitation
       (ua\<lparr>sessions_of := setEntry (invitationId request) (invitation_dispose request)
                               (sessions_of ua)\<rparr>)"

text \<open>
  Modelled from the spec: \<open>Invitation.reject\<close>, which is not among the sources. Section
  4.7 has \<open>reject(code)\<close> send the final response, and a final response of 3xx to 6xx
  end an INVITE session; section 3 has a session removed from the collection of the user
  agent at its terminal state, as
  \<open>Publisher.stateTransition\<close> and \<open>Publisher.dispose\<close> do for a publisher (lines 410 to
  412 and 123).
\<close>

definition rejectInvitation :: "nat \<Rightarrow> incomingInviteRequest \<Rightarrow> userAgent \<Rightarrow> userAgent" where
  "rejectInvitation code request ua = deleteEntry Sessions (invitationId request) (act (Reject code) ua)"

text \<open>How the handling of the \<open>Replaces\<close> header (lines 1161 to 1208) ends: with an
  exception, with the invitation rejected, or with the handler going on (with the id of
  the session to replace, when there is a header). \<open>replacesChecks\<close> is given the user
  agent as it is when line 1161 is reached.\<close>

datatype replacesOutcome = ReplacesThrows exn | ReplacesRejects nat | ReplacesPasses "string option"

definition replacesChecks :: "userAgent \<Rightarrow> incomingInviteRequest \<Rightarrow> replacesOutcome" where
  "replacesChecks ua request =
     (if options_sipExtensionReplaces ua \<noteq> Unsupported then
        (case replaces request of
           None \<Rightarrow> ReplacesPasses None
         | Some r \<Rightarrow>
            (case call_id r of
               None \<Rightarrow> ReplacesThrows (Error ''Type of call id is not string'')
             | Some callId \<Rightarrow>
                (case replaces_to_tag r of
                   None \<Rightarrow> ReplacesThrows (Error ''Type of to tag is not string'')
                 | Some toTag \<Rightarrow>
                    (case replaces_from_tag r of
                       None \<Rightarrow> ReplacesThrows (Error ''type of from tag is not string'')
                     | Some fromTag \<Rightarrow>
                        (case dialogs ua (callId @ toTag @ fromTag) of
                           None \<Rightarrow> ReplacesRejects 481
                         | Some targetDialog \<Rightarrow>
                             if \<not> early targetDialog \<and> early_only r then ReplacesRejects 486
                             else
                               (case map_of (sessions_of ua) (callId @ fromTag) of
                                  Some s \<Rightarrow> ReplacesPasses (Some (callId @ fromTag))
                                | None \<Rightarrow>
                                   (case map_of (sessions_of ua) (callId @ toTag) of
                                      Some s \<Rightarrow> ReplacesPasses (Some (callId @ toTag))
                                    | None \<Rightarrow> ReplacesThrows (Error ''Session does not exist.''))))))))
      else ReplacesPasses None)"


section \<open>Notions used to state the properties\<close>

subsection \<open>Digest authentication\<close>

text \<open>The number a string of hexadecimal digits denotes, to read \<open>ncHex\<close> back.\<close>

definition hexDigitValue :: "char \<Rightarrow> nat" where
  "hexDigitValue c = (if of_char c < (58::nat) then of_char c - 48 else of_char c - 87)"

definition hexValue :: "string \<Rightarrow> nat" where
  "hexValue s = foldl (\<lambda>acc c. 16 * acc + hexDigitValue c) 0 s"

text \<open>The three checks of \<open>authenticate\<close> that come before the choice of \<open>qop\<close> (lines 60
  to 77): the algorithm is absent, empty or "MD5", and realm and nonce are not empty.\<close>

definition passesChallengeChecks :: "challenge \<Rightarrow> bool" where
  "passesChallengeChecks ch =
     (\<not> (truthy (challenge_algorithm ch) \<and> challenge_algorithm ch \<noteq> Some ''MD5'')
      \<and> truthy (challenge_realm ch) \<and> truthy (challenge_nonce ch))"

text \<open>Concrete inputs: a request, a challenge with an algorithm other than MD5 that offers
  \<open>auth\<close>, and a challenge without algorithm that offers \<open>auth-int\<close> and \<open>auth\<close>.\<close>

definition registerRequest :: outgoingRequestMessage where
  "registerRequest = \<lparr> request_method = ''REGISTER'', request_ruri = ''sip:example.com'' \<rparr>"

definition sha256Challenge :: challenge where
  "sha256Challenge =
     \<lparr> challenge_algorithm = Some ''SHA-256'', challenge_realm = Some ''example.com'',
       challenge_nonce = Some ''abc'', challenge_opaque = None, challenge_stale = None,
       challenge_qop = Some [''auth''] \<rparr>"

definition md5Challenge :: challenge where
  "md5Challenge =
     \<lparr> challenge_algorithm = None, challenge_realm = Some ''example.com'',
       challenge_nonce = Some ''abc'', challenge_opaque = None, challenge_stale = None,
       challenge_qop = Some [''auth-int'', ''auth''] \<rparr>"

definition alice :: digestAuthentication where
  "alice = newDigestAuthentication (Some ''alice'') (Some ''secret'')"

definition authIntChallenge :: challenge where
  "authIntChallenge = md5Challenge\<lparr>challenge_qop := Some [''auth-int'']\<rparr>"

definition otherQopChallenge :: challenge where
  "otherQopChallenge = md5Challenge\<lparr>challenge_qop := Some [''token'']\<rparr>"

subsection \<open>Transport\<close>

text \<open>
  The legal transitions as the specification lists them: Disconnected to Connecting;
  Connecting to Connected, Disconnecting or Disconnected; Connected to Disconnecting or
  Disconnected; Disconnecting to Disconnected or Connecting.
\<close>

fun legalTransition :: "TransportState \<Rightarrow> TransportState \<Rightarrow> bool" where
  "legalTransition Disconnected n = (n = Connecting)"
| "legalTransition Connecting n = (n = Connected \<or> n = Disconnecting \<or> n = Disconnected)"
| "legalTransition Connected n = (n = Disconnecting \<or> n = Disconnected)"
| "legalTransition Disconnecting n = (n = Disconnected \<or> n = Connecting)"

text \<open>
  The relation between the promises and the state that the class keeps: a connect promise
  is stored only while \<open>Connecting\<close>, a disconnect promise only while \<open>Disconnecting\<close>.
  It holds of a new transport and every event keeps it (\<open>newTransport_consistent\<close>,
  \<open>handle_consistent\<close>).
\<close>

definition promisesConsistent :: "'u transport \<Rightarrow> bool" where
  "promisesConsistent t =
     ((connectPromise t \<noteq> None \<longrightarrow> state t = Connecting)
      \<and> (disconnectPromise t \<noteq> None \<longrightarrow> state t = Disconnecting))"

text \<open>The fields of a transport that no callback and no settlement of a promise changes.\<close>

definition core ::
  "'u transport \<Rightarrow> TransportState \<times> bool \<times> nat option \<times> nat option \<times> nat option" where
  "core t = (state t, transitioningState t, connectPromise t, disconnectPromise t, ws t)"

text \<open>
  \<open>guard P cb\<close> is the callback \<open>cb\<close> with an assertion in front: called on a transport of
  which \<open>P\<close> does not hold, it throws instead of running \<open>cb\<close>. \<open>guardCallbacks P\<close> puts
  the assertion in front of every callback. A run that is the same with and without the
  assertions is a run in which every callback was called on a transport satisfying \<open>P\<close>.
\<close>

definition guard :: "('u transport \<Rightarrow> bool) \<Rightarrow> 'u callback \<Rightarrow> 'u callback" where
  "guard P cb t = (if P t then cb t else (app t, Some (Error ''assertion failed'')))"

definition guardCallbacks :: "('u transport \<Rightarrow> bool) \<Rightarrow> 'u callbacks \<Rightarrow> 'u callbacks" where
  "guardCallbacks P cbs =
     \<lparr> stateListener = guard P (stateListener cbs),
       onConnect = map_option (guard P) (onConnect cbs),
       onDisconnect = map_option (\<lambda>f e. guard P (f e)) (onDisconnect cbs),
       legacyListener = (\<lambda>name. guard P (legacyListener cbs name)) \<rparr>"

text \<open>
  State-change listeners that call \<open>connect()\<close> or \<open>disconnect()\<close> synchronously. The
  application's variables are a list to which the listener appends what it saw: the
  value of the flag \<open>transitioningState\<close> at the time of the call and what the call gave.
  A call made while a transition is in progress calls no callback
  (\<open>in_flight_call_ignores_callbacks\<close>), so which callbacks the inner call is given does
  not matter.
\<close>

definition callsConnect :: "exn option \<Rightarrow> (bool \<times> callResult) list callback" where
  "callsConnect wsNew t = (app t @ [(transitioningState t, fst (connect noCallbacks wsNew t))], None)"

definition callsDisconnect :: "exn option \<Rightarrow> (bool \<times> callResult) list callback" where
  "callsDisconnect wsClose t =
     (app t @ [(transitioningState t, fst (disconnect noCallbacks wsClose t))], None)"

text \<open>A listener that reconnects as soon as it is told the transport is \<open>Disconnected\<close>.\<close>

definition reconnectOnDisconnected :: "(bool \<times> callResult) list callback" where
  "reconnectOnDisconnected t = (if state t = Disconnected then callsConnect None t else noListener t)"

definition reconnectCallbacks :: "(bool \<times> callResult) list callbacks" where
  "reconnectCallbacks = noCallbacks\<lparr>stateListener := reconnectOnDisconnected\<rparr>"

text \<open>A sequence of events, handled one after the other.\<close>

fun run :: "'u callbacks \<Rightarrow> event list \<Rightarrow> 'u transport \<Rightarrow> 'u transport" where
  "run cbs [] t = t"
| "run cbs (ev # evs) t = run cbs evs (handle cbs ev t)"

text \<open>A transport that has connected: \<open>connect()\<close> on a new transport, then the "open"
  event of its socket.\<close>

definition connectedTransport :: "(bool \<times> callResult) list transport" where
  "connectedTransport = run noCallbacks [CallConnect None, WebSocketOpen 0] (newTransport False [])"

subsection \<open>Publisher\<close>

text \<open>
  The expiry a 200-class response leaves in force: the \<open>Expires\<close> value of the response
  when it is a number from 0 to the requested expiry, else the requested expiry.
\<close>

definition effectiveExpires :: "incomingResponseMessage \<Rightarrow> publisher \<Rightarrow> jsnum" where
  "effectiveExpires rsp p =
     (case expiresHeader rsp of
        Some x \<Rightarrow> if js_le (Num 0) x \<and> js_le x (pubRequestExpires p) then x else pubRequestExpires p
      | None \<Rightarrow> pubRequestExpires p)"

text \<open>The response of the specification's scenario 5: 200 with \<open>SIP-ETag: abc\<close> and
  \<open>Expires: 3600\<close>.\<close>

definition okResponse :: incomingResponseMessage where
  "okResponse = \<lparr> statusCode = 200, sipETag = Some ''abc'', expiresHeader = Some (Num 3600),
                   minExpiresHeader = None \<rparr>"

text \<open>A publisher after \<open>publish("state")\<close> and that response.\<close>

definition publishedPublisher :: publisher where
  "publishedPublisher =
     snd (receiveResponse okResponse (publish (Some ''state'') (newPublisher (Num 3600) None True)))"

text \<open>The same publisher once its refresh timer has fired and \<open>refreshRequest\<close> has sent
  the refreshing PUBLISH.\<close>

definition refreshingPublisher :: publisher where
  "refreshingPublisher = snd (refreshRequest publishedPublisher)"

subsection \<open>User agent\<close>

text \<open>
  The steps of \<open>stop()\<close> as the specification orders them, each with the way it ends: the
  state change, the disposal of each registerer, session, subscription and publisher,
  the disposal of the transport and the reset of the core.
\<close>

definition disposals :: "collection \<Rightarrow> (string \<times> settlement) list \<Rightarrow> (userAgentAction \<times> settlement) list" where
  "disposals c entries = map (\<lambda>e. (Dispose c (fst e), snd e)) entries"

definition stopPlan :: "userAgent \<Rightarrow> (userAgentAction \<times> settlement) list" where
  "stopPlan ua =
     [(StateChange Stopped, case stateListenerThrows ua of None \<Rightarrow> Resolved | Some e \<Rightarrow> Rejected e)]
     @ disposals Registerers (registerers_of ua)
     @ disposals Sessions (sessions_of ua)
     @ disposals Subscriptions (subscriptions_of ua)
     @ disposals Publishers (publishers_of ua)
     @ [(DisposeTransport, transportDispose ua), (DisposeCore, Resolved)]"

text \<open>Steps taken one after the other until one is rejected: the steps started, and the
  error of the one that was rejected, if any.\<close>

fun started :: "('a \<times> settlement) list \<Rightarrow> 'a list" where
  "started [] = []"
| "started ((a, Resolved) # rest) = a # started rest"
| "started ((a, Rejected e) # rest) = [a]"

fun firstRejection :: "('a \<times> settlement) list \<Rightarrow> exn option" where
  "firstRejection [] = None"
| "firstRejection ((a, Resolved) # rest) = firstRejection rest"
| "firstRejection ((a, Rejected e) # rest) = Some e"

text \<open>Concrete inputs: a started user agent with one registerer and one session, whose
  instance id is \<open>abcde\<close>; the same with a transport whose \<open>disconnect()\<close> is rejected
  (as it is when \<open>connect()\<close> is called while it disconnects); the same, stopped.\<close>

definition startedUserAgent :: userAgent where
  "startedUserAgent =
     \<lparr> userAgentState = Started, publishers_of = [], registerers_of = [(''r1'', Resolved)],
       sessions_of = [(''call1tagA'', Resolved)], subscriptions_of = [],
       transportDispose = Resolved, stateListenerThrows = None, options_sipjsId = ''abcde'',
       options_viaHost = ''host.invalid'', options_sipExtensionReplaces = Supported,
       delegate_defined = False, delegate_onInvite = False, dialogs = Map.empty,
       actions = [] \<rparr>"

definition abortedDisconnectUserAgent :: userAgent where
  "abortedDisconnectUserAgent =
     startedUserAgent\<lparr>transportDispose := Rejected (Error ''Disconnect aborted.'')\<rparr>"

definition stoppedUserAgent :: userAgent where
  "stoppedUserAgent = startedUserAgent\<lparr>userAgentState := Stopped\<rparr>"

text \<open>A request with every mandatory header, no to-tag and a Call-ID that starts with
  the instance id; a request with a to-tag whose body is shorter than its
  \<open>Content-Length\<close> says; \<open>Number\<close> on the strings used here.\<close>

definition loopedRequest :: incomingMessage where
  "loopedRequest =
     \<lparr> kind = IncomingRequest, hasHeader = (\<lambda>h. True), message_toTag = None,
       message_callId = ''abcde0123456789'', message_body = [], contentLength = None,
       viaCount = 1, viaHost = ''peer.invalid'', viaPort = None \<rparr>"

definition shortBodyRequest :: incomingMessage where
  "shortBodyRequest =
     loopedRequest\<lparr>message_toTag := Some ''tagB'', message_body := ''abc'',
                    contentLength := Some ''10''\<rparr>"

text \<open>A user agent configured with an instance id of three characters, and a request
  whose Call-ID starts with that id.\<close>

definition shortIdUserAgent :: userAgent where
  "shortIdUserAgent = startedUserAgent\<lparr>options_sipjsId := ''abc''\<rparr>"

definition shortIdRequest :: incomingMessage where
  "shortIdRequest = loopedRequest\<lparr>message_callId := ''abc0123456789abcde''\<rparr>"

definition numberOf :: "string \<Rightarrow> jsnum" where
  "numberOf s = (if s = ''10'' then Num 10 else NaN)"






text \<open>
  The three checks of an incoming request in the words of the specification: a
  mandatory header field is missing; the request has no to-tag and its Call-ID begins
  with the instance id; the declared \<open>Content-Length\<close> is above the number of bytes of
  the body.
\<close>

definition missingMandatoryHeader :: "incomingMessage \<Rightarrow> bool" where
  "missingMandatoryHeader message =
     (\<exists>h \<in> set [''from'', ''to'', ''call_id'', ''cseq'', ''via'']. \<not> hasHeader message h)"

definition selfLoop :: "userAgent \<Rightarrow> incomingMessage \<Rightarrow> bool" where
  "selfLoop ua message =
     (\<not> truthy (message_toTag message)
      \<and> take (length (options_sipjsId ua)) (message_callId message) = options_sipjsId ua)"

definition declaredLengthExceedsBody :: "(string \<Rightarrow> jsnum) \<Rightarrow> incomingMessage \<Rightarrow> bool" where
  "declaredLengthExceedsBody toNumber message =
     (\<exists>c. contentLength message = Some c \<and> c \<noteq> []
           \<and> js_lt (Num (real (length (message_body message)))) (toNumber c))"

section \<open>Properties of digest authentication\<close>

subsection \<open>Hexadecimal rendering\<close>

lemma hexDigit_in: "d < 16 \<Longrightarrow> hexDigit d \<in> set ''0123456789abcdef''"
  unfolding hexDigit_def by (rule nth_mem) simp

lemma hexDigitValue_hexDigit: "d < 16 \<Longrightarrow> hexDigitValue (hexDigit d) = d"
proof -
  assume "d < 16"
  then have "d \<in> {0,1,2,3,4,5,6,7,8,9,10,11,12,13,14,15}" by simp presburger
  then show ?thesis
    by (auto simp: hexDigit_def hexDigitValue_def)
qed

lemma toString16_length: "n < 16 ^ k \<Longrightarrow> 0 < k \<Longrightarrow> length (toString16 n) \<le> k"
proof (induction n arbitrary: k rule: toString16.induct)
  case (1 n)
  show ?case
  proof (cases "n < 16")
    case True
    then show ?thesis using "1.prems" by (subst toString16.simps) simp
  next
    case False
    then obtain k' where k: "k = Suc k'" using "1.prems" by (cases k) auto
    have "k' \<noteq> 0" using False "1.prems" k by (cases k') auto
    moreover have "n div 16 < 16 ^ k'" using "1.prems" k
      by (simp add: less_mult_imp_div_less mult.commute)
    ultimately have "length (toString16 (n div 16)) \<le> k'"
      using "1.IH"[OF False, of k'] by simp
    then show ?thesis using False k by (subst toString16.simps) simp
  qed
qed

lemma toString16_digits: "set (toString16 n) \<subseteq> set ''0123456789abcdef''"
proof (induction n rule: toString16.induct)
  case (1 n)
  show ?case
  proof (cases "n < 16")
    case True
    then show ?thesis using hexDigit_in[of n] by (subst toString16.simps) simp
  next
    case False
    have "hexDigit (n mod 16) \<in> set ''0123456789abcdef''" by (rule hexDigit_in) simp
    then show ?thesis using False "1.IH" by (subst toString16.simps) simp
  qed
qed

lemma hexValue_snoc: "hexValue (s @ [c]) = 16 * hexValue s + hexDigitValue c"
  by (simp add: hexValue_def)

lemma hexValue_toString16: "hexValue (toString16 n) = n"
proof (induction n rule: toString16.induct)
  case (1 n)
  show ?case
  proof (cases "n < 16")
    case True
    then show ?thesis
      by (subst toString16.simps) (simp add: hexValue_def hexDigitValue_hexDigit)
  next
    case False
    then show ?thesis using "1.IH"
      by (subst toString16.simps) (simp add: hexValue_snoc hexDigitValue_hexDigit)
  qed
qed

lemma hexValue_zeros: "hexValue (replicate k CHR ''0'' @ s) = hexValue s"
  by (induction k) (simp_all add: hexValue_def hexDigitValue_def)

lemma take_zeros: "take k ''00000000'' = replicate (min k 8) CHR ''0''"
proof -
  have "''00000000'' = replicate 8 CHR ''0''" by (simp add: numeral_eq_Suc)
  then show ?thesis by (simp add: min.commute)
qed

lemma toString16_1: "toString16 (Suc 0) = ''1''"
  by (subst toString16.simps) (simp add: hexDigit_def)

lemma pad_1: "replicate (8 - length ''1'') CHR ''0'' @ ''1'' = ''00000001''"
  by (simp add: numeral_eq_Suc)

subsection \<open>The steps of \<open>authenticate\<close>\<close>

lemma calculateResponse_fields [simp]:
  "nc (calculateResponse MD5 b d) = nc d"
  "ncHex (calculateResponse MD5 b d) = ncHex d"
  "qop (calculateResponse MD5 b d) = qop d"
  by (simp_all add: calculateResponse_def Let_def)

lemma calculateResponse_idem:
  "calculateResponse MD5 b (calculateResponse MD5 b d) = calculateResponse MD5 b d"
  by (simp add: calculateResponse_def Let_def)

lemma authenticateFill_nc:
  assumes "nc d < 2 ^ 32" and "authenticateFill MD5 token d request b = (ok, d')"
  shows "ok \<and> nc d' = (if nc d + 1 = 2 ^ 32 then 1 else nc d + 1)
       \<and> ncHex d' = replicate (8 - length (toString16 (nc d'))) CHR ''0'' @ toString16 (nc d')
       \<and> length (ncHex d') = 8
       \<and> calculateResponse MD5 b d' = d'"
proof (cases "nc d + 1 = 2 ^ 32")
  case True
  then have "nc d + 1 = 4294967296" by simp
  with assms(2) have d': "d' = calculateResponse MD5 b
      ((updateNcHex (d\<lparr>requestMethod := Some (request_method request),
                       uri := Some (request_ruri request),
                       cnonce := Some token, nc := nc d + 1\<rparr>))\<lparr>nc := 1, ncHex := ''00000001''\<rparr>)"
    and ok: ok
    by (simp_all add: authenticateFill_def Let_def updateNcHex_def)
  show ?thesis using True ok pad_1
    by (simp add: d' calculateResponse_idem toString16_1)
next
  case False
  then have ne: "nc d + 1 \<noteq> 4294967296" by simp
  have lt: "nc d + 1 < 16 ^ 8" using False assms(1) by simp
  have len: "length (toString16 (nc d + 1)) \<le> 8" by (rule toString16_length[OF lt]) simp
  from assms(2) ne have d': "d' = calculateResponse MD5 b
      (updateNcHex (d\<lparr>requestMethod := Some (request_method request),
                      uri := Some (request_ruri request),
                      cnonce := Some token, nc := nc d + 1\<rparr>))"
    and ok: ok
    by (simp_all add: authenticateFill_def Let_def updateNcHex_def)
  show ?thesis using False ok len
    by (simp add: d' calculateResponse_idem updateNcHex_def Let_def take_zeros min_def)
qed

lemma authenticateFill_ok: "fst (authenticateFill MD5 token d request b)"
  by (simp add: authenticateFill_def Let_def)

lemma authenticateFill_qop: "qop (snd (authenticateFill MD5 token d request b)) = qop d"
  by (simp add: authenticateFill_def Let_def updateNcHex_def)

text \<open>A call that returns \<open>true\<close> went through the second half, on an object with the
  nonce count the call started with.\<close>

lemma authenticate_success:
  assumes "authenticate MD5 token d request ch b = (True, d')"
  shows "\<exists>d0. nc d0 = nc d \<and> authenticateFill MD5 token d0 request b = (True, d')"
proof -
  have r: "\<And>d0. nc d0 = nc d \<Longrightarrow> authenticateFill MD5 token d0 request b = (True, d') \<Longrightarrow> ?thesis"
    by blast
  from assms show ?thesis
    by (auto simp: authenticate_def Let_def split: if_splits option.splits elim!: r[rotated])
qed

text \<open>A call that returns \<open>false\<close> leaves the nonce count, its rendering, the client nonce
  and the response as they were.\<close>

lemma authenticate_failure:
  assumes "authenticate MD5 token d request ch b = (False, d')"
  shows "nc d' = nc d \<and> ncHex d' = ncHex d \<and> response d' = response d \<and> cnonce d' = cnonce d"
proof -
  have r: "\<And>d0 P. authenticateFill MD5 token d0 request b = (False, d') \<Longrightarrow> P"
    using authenticateFill_ok[of MD5 token _ request b] by (metis fst_conv)
  from assms show ?thesis
    by (auto simp: authenticate_def Let_def split: if_splits option.splits elim: r)
qed

text \<open>The nonce count of a new object is 0, below \<open>2^32\<close>.\<close>

lemma newDigestAuthentication_nc: "nc (newDigestAuthentication user pass) < 2 ^ 32"
  by (simp add: newDigestAuthentication_def)

subsection \<open>The choice of qop\<close>

text \<open>
  C2. As stated the claim speaks of every challenge passed to
  \<open>authenticate\<close>, but the choice of \<open>qop\<close> comes after three checks that end the call with
  \<open>false\<close>. What holds: for a challenge whose \<open>qop\<close> is present and that passes the checks
  of algorithm, realm and nonce, \<open>"auth"\<close> is chosen when offered, \<open>"auth-int"\<close> when it is
  offered and \<open>"auth"\<close> is not, and the call returns \<open>true\<close>; for any challenge whose \<open>qop\<close>
  is present and offers neither, the call returns \<open>false\<close> and the response, the nonce
  count and its rendering are what they were.
\<close>

theorem authenticate_selects_qop:
  assumes "challenge_qop ch = Some offered"
  shows "(passesChallengeChecks ch \<and> ''auth'' \<in> set offered \<longrightarrow>
            fst (authenticate MD5 token d request ch b)
            \<and> qop (snd (authenticate MD5 token d request ch b)) = Some ''auth'')
       \<and> (passesChallengeChecks ch \<and> ''auth'' \<notin> set offered \<and> ''auth-int'' \<in> set offered \<longrightarrow>
            fst (authenticate MD5 token d request ch b)
            \<and> qop (snd (authenticate MD5 token d request ch b)) = Some ''auth-int'')
       \<and> (''auth'' \<notin> set offered \<and> ''auth-int'' \<notin> set offered \<longrightarrow>
            \<not> fst (authenticate MD5 token d request ch b)
            \<and> response (snd (authenticate MD5 token d request ch b)) = response d
            \<and> nc (snd (authenticate MD5 token d request ch b)) = nc d
            \<and> ncHex (snd (authenticate MD5 token d request ch b)) = ncHex d)"
  using assms
  by (simp add: authenticate_def Let_def authenticateFill_ok authenticateFill_qop
      passesChallengeChecks_def)

theorem authenticate_selects_qop_witness:
  "challenge_qop md5Challenge = Some [''auth-int'', ''auth'']
   \<and> passesChallengeChecks md5Challenge \<and> ''auth'' \<in> set [''auth-int'', ''auth'']
   \<and> fst (authenticate id ''tok'' alice registerRequest md5Challenge None)
   \<and> qop (snd (authenticate id ''tok'' alice registerRequest md5Challenge None)) = Some ''auth''
   \<and> challenge_qop authIntChallenge = Some [''auth-int'']
   \<and> passesChallengeChecks authIntChallenge \<and> ''auth'' \<notin> set [''auth-int'']
   \<and> fst (authenticate id ''tok'' alice registerRequest authIntChallenge None)
   \<and> qop (snd (authenticate id ''tok'' alice registerRequest authIntChallenge None)) = Some ''auth-int''
   \<and> challenge_qop otherQopChallenge = Some [''token'']
   \<and> \<not> fst (authenticate id ''tok'' alice registerRequest otherQopChallenge None)
   \<and> response (snd (authenticate id ''tok'' alice registerRequest otherQopChallenge None)) = None"
proof -
  have q1: "challenge_qop md5Challenge = Some [''auth-int'', ''auth'']"
    by (simp add: md5Challenge_def)
  have q2: "challenge_qop authIntChallenge = Some [''auth-int'']"
    by (simp add: authIntChallenge_def)
  have q3: "challenge_qop otherQopChallenge = Some [''token'']"
    by (simp add: otherQopChallenge_def)
  have p1: "passesChallengeChecks md5Challenge"
    by (simp add: passesChallengeChecks_def md5Challenge_def truthy_def)
  have p2: "passesChallengeChecks authIntChallenge"
    by (simp add: passesChallengeChecks_def authIntChallenge_def md5Challenge_def truthy_def)
  have r: "response alice = None"
    by (simp add: alice_def newDigestAuthentication_def)
  show ?thesis
    using authenticate_selects_qop [OF q1, of id "''tok''" alice registerRequest None]
      authenticate_selects_qop [OF q2, of id "''tok''" alice registerRequest None]
      authenticate_selects_qop [OF q3, of id "''tok''" alice registerRequest None]
      q1 q2 q3 p1 p2 r
    by simp
qed

text \<open>The claim as stated fails on a challenge that offers \<open>auth\<close> with an algorithm other
  than MD5: the call returns \<open>false\<close> and no \<open>qop\<close> is chosen.\<close>

theorem authenticate_selects_qop_counterexample:
  "challenge_qop sha256Challenge = Some [''auth'']
   \<and> \<not> fst (authenticate id ''tok'' alice registerRequest sha256Challenge None)
   \<and> qop (snd (authenticate id ''tok'' alice registerRequest sha256Challenge None)) = None"
  by (simp add: authenticate_def Let_def sha256Challenge_def alice_def
      newDigestAuthentication_def truthy_def)

subsection \<open>The nonce count\<close>

text \<open>
  C9. The nonce count starts at 0 and stays below \<open>2^32\<close>
  (\<open>newDigestAuthentication_nc\<close> and the last conjunct here). On an object whose count is
  below \<open>2^32\<close>, a call of \<open>authenticate\<close> that returns \<open>true\<close> leaves the count one
  higher, or at 1 when one higher is \<open>2^32\<close>; \<open>ncHex\<close> is then the hexadecimal rendering of
  the new count padded with zeros to exactly 8 digits, it denotes the new count, and the
  stored response is the one \<open>calculateResponse\<close> computes from the object as the call
  leaves it, that is, from the wrapped count.
\<close>

theorem authenticate_nonce_count:
  assumes "nc d < 2 ^ 32" and "authenticate MD5 token d request ch b = (True, d')"
  shows "nc d' = (if nc d + 1 = 2 ^ 32 then 1 else nc d + 1)
       \<and> ncHex d' = replicate (8 - length (toString16 (nc d'))) CHR ''0'' @ toString16 (nc d')
       \<and> length (ncHex d') = 8
       \<and> set (ncHex d') \<subseteq> set ''0123456789abcdef''
       \<and> hexValue (ncHex d') = nc d'
       \<and> calculateResponse MD5 b d' = d'
       \<and> 0 < nc d' \<and> nc d' < 2 ^ 32"
proof -
  from authenticate_success[OF assms(2)] obtain d0 where
    d0: "nc d0 = nc d" and fill: "authenticateFill MD5 token d0 request b = (True, d')" by blast
  from assms(1) d0 have "nc d0 < 2 ^ 32" by simp
  note F = authenticateFill_nc[OF this fill, unfolded d0]
  from F have n: "nc d' = (if nc d + 1 = 2 ^ 32 then 1 else nc d + 1)" by blast
  from F have h: "ncHex d' = replicate (8 - length (toString16 (nc d'))) CHR ''0'' @ toString16 (nc d')"
    by blast
  from F have l: "length (ncHex d') = 8" by blast
  from F have c: "calculateResponse MD5 b d' = d'" by blast
  have digits: "set (ncHex d') \<subseteq> set ''0123456789abcdef''"
  proof -
    have "set (replicate (8 - length (toString16 (nc d'))) CHR ''0'') \<subseteq> set ''0123456789abcdef''"
      by auto
    with toString16_digits[of "nc d'"] show ?thesis by (subst h) simp
  qed
  have v: "hexValue (ncHex d') = nc d'"
    by (subst h) (simp add: hexValue_zeros hexValue_toString16)
  have bounds: "0 < nc d' \<and> nc d' < 2 ^ 32" using n assms(1) by (auto split: if_splits)
  show ?thesis using n h l c digits v bounds by blast
qed

text \<open>The witness is the call that wraps: the count is \<open>2^32 - 1\<close> before it and 1 after.\<close>

theorem authenticate_nonce_count_witness:
  "nc (alice\<lparr>nc := 4294967295\<rparr>) < 2 ^ 32
   \<and> fst (authenticate id ''tok'' (alice\<lparr>nc := 4294967295\<rparr>) registerRequest md5Challenge None)
   \<and> nc (snd (authenticate id ''tok'' (alice\<lparr>nc := 4294967295\<rparr>) registerRequest md5Challenge None)) = 1
   \<and> ncHex (snd (authenticate id ''tok'' (alice\<lparr>nc := 4294967295\<rparr>) registerRequest md5Challenge None))
       = ''00000001''"
proof -
  let ?r = "authenticate id ''tok'' (alice\<lparr>nc := 4294967295\<rparr>) registerRequest md5Challenge None"
  have h: "nc (alice\<lparr>nc := 4294967295\<rparr>) < 2 ^ 32" by simp
  have ok: "fst ?r"
    by (simp add: authenticate_def Let_def md5Challenge_def truthy_def authenticateFill_ok)
  then have r: "?r = (True, snd ?r)" by (cases ?r) simp
  from authenticate_nonce_count [OF h r]
  have n: "nc (snd ?r) = 1"
    and x: "ncHex (snd ?r) = replicate (8 - length (toString16 (nc (snd ?r)))) CHR ''0''
                              @ toString16 (nc (snd ?r))"
    by simp_all
  from x have "ncHex (snd ?r) = ''00000001''"
    by (simp only: n One_nat_def toString16_1 pad_1)
  with h ok n show ?thesis by blast
qed

section \<open>Properties of the transport\<close>

subsection \<open>Sequencing and the fields a transition keeps\<close>

lemma seq_cases:
  "seq r k = (case fst r of None \<Rightarrow> k (snd r) | Some x \<Rightarrow> (Some x, snd r))"
  by (cases r) (simp add: seq_def split: option.splits)

lemma seq_keeps:
  assumes "P (snd r)" and "\<And>t. P t \<Longrightarrow> P (snd (k t))"
  shows "P (snd (seq r k))"
  using assms by (cases r) (auto simp: seq_def split: option.splits)

lemma invoke_fields [simp]:
  "state (snd (invoke cb t)) = state t"
  "transitioningState (snd (invoke cb t)) = transitioningState t"
  "connectPromise (snd (invoke cb t)) = connectPromise t"
  "disconnectPromise (snd (invoke cb t)) = disconnectPromise t"
  "ws (snd (invoke cb t)) = ws t"
  "settled (snd (invoke cb t)) = settled t"
  by (simp_all add: invoke_def split: prod.splits)

lemma core_invoke [simp]: "core (snd (invoke cb t)) = core t"
  by (simp add: core_def)

lemma core_settle [simp]: "core (settle p r t) = core t"
  by (simp add: core_def settle_def)

lemma core_keepalive [simp]:
  "core (startSendingKeepAlives t) = core t" "core (stopSendingKeepAlives t) = core t"
  by (simp_all add: core_def startSendingKeepAlives_def stopSendingKeepAlives_def)

lemma core_update [simp]:
  "core (t\<lparr>app := u\<rparr>) = core t"
  "core (t\<lparr>connectTimeout := b\<rparr>) = core t"
  "core (t\<lparr>connectResolve := r\<rparr>) = core t"
  "core (t\<lparr>connectReject := r\<rparr>) = core t"
  "core (t\<lparr>disconnectResolve := r\<rparr>) = core t"
  "core (t\<lparr>disconnectReject := r\<rparr>) = core t"
  by (simp_all add: core_def)

lemma transitionBody_core:
  "core (snd (transitionBody cbs ns e t)) =
     (if validTransition (state t) ns
      then (ns, transitioningState t,
            if state t = Connecting then None else connectPromise t,
            if state t = Disconnecting then None else disconnectPromise t, ws t)
      else core t)"
proof (cases "validTransition (state t) ns")
  case False
  then show ?thesis by (simp add: transitionBody_def)
next
  case True
  let ?X = "(ns, transitioningState t,
            if state t = Connecting then None else connectPromise t,
            if state t = Disconnecting then None else disconnectPromise t, ws t)"
  let ?P = "\<lambda>t'. core t' = ?X"
  have "?P (snd (transitionBody cbs ns e t))"
    unfolding transitionBody_def Let_def using True
    apply (simp only: if_True if_False not_True_eq_False simp_thms)
    apply (intro seq_keeps[where P="?P"])
    apply (simp_all split: option.splits)
    apply (simp add: core_def)
    done
  with True show ?thesis by simp
qed


lemma valid_legal: "validTransition s n = legalTransition s n"
  by (cases s; cases n) simp_all

lemma transitionBody_flag:
  "transitioningState (snd (transitionBody cbs ns e t)) = transitioningState t"
  using transitionBody_core[of cbs ns e t] by (simp add: core_def split: if_splits)

lemma transitionBody_invalid:
  "\<not> validTransition (state t) ns \<Longrightarrow>
     transitionBody cbs ns e t =
       (Some (Error (''Invalid state transition from '' @ stateName (state t) @ '' to '' @ stateName ns)), t)"
  by (simp add: transitionBody_def)

lemma transitionState_in_flight:
  "transitioningState t \<Longrightarrow> transitionState cbs ns e t = (Some (StateTransitionError ''Loop detected.''), t)"
  by (simp add: transitionState_def transitionLoopDetectedError_def)

lemma transitionState_core:
  assumes "\<not> transitioningState t"
  shows "core (snd (transitionState cbs ns e t)) =
     (if validTransition (state t) ns
      then (ns, fst (transitionState cbs ns e t) \<noteq> None,
            if state t = Connecting then None else connectPromise t,
            if state t = Disconnecting then None else disconnectPromise t, ws t)
      else (state t, True, connectPromise t, disconnectPromise t, ws t))"
proof -
  obtain x t' where b: "transitionBody cbs ns e (t\<lparr>transitioningState := True\<rparr>) = (x, t')"
    by (cases "transitionBody cbs ns e (t\<lparr>transitioningState := True\<rparr>)")
  have c: "core t' = (if validTransition (state t) ns
      then (ns, True,
            if state t = Connecting then None else connectPromise t,
            if state t = Disconnecting then None else disconnectPromise t, ws t)
      else (state t, True, connectPromise t, disconnectPromise t, ws t))"
    using transitionBody_core[of cbs ns e "t\<lparr>transitioningState := True\<rparr>"] b
    by (simp add: core_def)
  show ?thesis
  proof (cases x)
    case None
    with b assms c show ?thesis
      by (auto simp: transitionState_def seq_def core_def transitionBody_invalid split: if_splits)
  next
    case (Some y)
    with b assms c show ?thesis
      by (auto simp: transitionState_def seq_def core_def split: if_splits)
  qed
qed

lemma in_flight_call_leaves_transport:
  assumes "transitioningState t"
  shows "snd (connect cbs wsNew t) = t" and "snd (disconnect cbs wsClose t) = t"
  using assms
  by (simp_all add: connect_def connect_impl_def disconnect_def disconnect_impl_def tryTransition_def
      transitionState_in_flight split: TransportState.splits option.splits)

lemma in_flight_rejected:
  assumes "transitioningState t" and "promisesConsistent t"
  shows "connect cbs wsNew t = (Rejects (StateTransitionError ''Loop detected.''), t)
       \<and> disconnect cbs wsClose t = (Rejects (StateTransitionError ''Loop detected.''), t)"
  using assms
  by (auto simp: connect_def connect_impl_def disconnect_def disconnect_impl_def tryTransition_def
      transitionState_in_flight promisesConsistent_def transitionLoopDetectedError_def
      split: TransportState.splits option.splits)


lemma seq_cong_inv:
  assumes "r = r'" and "I (snd r')" and "\<And>t. I t \<Longrightarrow> k t = k' t"
  shows "seq r k = seq r' k'"
  using assms by (cases r') (auto simp: seq_def split: option.splits)

lemma seq_cong_inv2:
  assumes "r = r'" and "I (snd r')" and "\<And>t. I t \<Longrightarrow> k t = k' t \<and> I (snd (k' t))"
  shows "seq r k = seq r' k' \<and> I (snd (seq r' k'))"
  using assms by (cases r') (auto simp: seq_def split: option.splits)

lemma guard_holds: "P t \<Longrightarrow> invoke (guard P cb) t = invoke cb t"
  by (simp add: invoke_def guard_def)

lemma transitionBody_guard:
  assumes "validTransition (state t) ns \<Longrightarrow>
             Q (ns, transitioningState t,
                if state t = Connecting then None else connectPromise t,
                if state t = Disconnecting then None else disconnectPromise t, ws t)"
  shows "transitionBody (guardCallbacks (\<lambda>t. Q (core t)) cbs) ns e t = transitionBody cbs ns e t"
proof (cases "validTransition (state t) ns")
  case False
  then show ?thesis by (simp add: transitionBody_def)
next
  case True
  let ?X = "(ns, transitioningState t,
            if state t = Connecting then None else connectPromise t,
            if state t = Disconnecting then None else disconnectPromise t, ws t)"
  let ?I = "\<lambda>t'. core t' = ?X"
  let ?P = "\<lambda>t. Q (core t)"
  have Q: "Q ?X" using assms True by simp
  have g: "\<And>cb t'. core t' = ?X \<Longrightarrow> invoke (guard ?P cb) t' = invoke cb t'"
    using Q by (simp add: guard_holds)
  have "transitionBody (guardCallbacks ?P cbs) ns e t = transitionBody cbs ns e t
        \<and> ?I (snd (transitionBody cbs ns e t))"
    unfolding transitionBody_def Let_def using True
    apply (simp only: if_True if_False not_True_eq_False simp_thms)
    apply (intro seq_cong_inv2[where I="?I"])
    apply (simp_all add: guardCallbacks_def g split: option.splits)
    apply (simp_all add: core_def g)
    using Q apply (auto simp: invoke_def guard_def core_def)
    done
  then show ?thesis by simp
qed


lemma connectedTransport_eval:
  "connectedTransport = (newTransport False [])\<lparr>state := Connected, ws := Some 0, nextId := 2,
      settled := [(1, Resolved)]\<rparr>"
  by (simp add: connectedTransport_def handle_def connect_def connect_impl_def newTransport_def
      tryTransition_def transitionState_def transitionBody_def seq_def invoke_def noCallbacks_def
      noListener_def connectOpen_def Let_def onWebSocketOpen_def settle_def startSendingKeepAlives_def)

lemma transitionState_state:
  "state (snd (transitionState cbs ns e t)) =
     (if \<not> transitioningState t \<and> validTransition (state t) ns then ns else state t)"
proof (cases "transitioningState t")
  case True
  then show ?thesis by (simp add: transitionState_in_flight)
next
  case False
  from transitionState_core[OF False, of cbs ns e] show ?thesis
    using False by (simp add: core_def split: if_splits)
qed

lemma promisesConsistent_core:
  "promisesConsistent t =
     (case core t of (s, f, cp, dp, w) \<Rightarrow> (cp \<noteq> None \<longrightarrow> s = Connecting) \<and> (dp \<noteq> None \<longrightarrow> s = Disconnecting))"
  by (simp add: promisesConsistent_def core_def)

lemma transitionState_consistent:
  assumes "promisesConsistent t"
  shows "promisesConsistent (snd (transitionState cbs ns e t))"
proof (cases "transitioningState t")
  case True
  with assms show ?thesis by (simp add: transitionState_in_flight)
next
  case False
  from transitionState_core[OF False, of cbs ns e] assms show ?thesis
    unfolding promisesConsistent_core
    by (cases "state t"; cases ns) (auto simp: core_def split: if_splits)
qed

lemma tryTransition_cases:
  "tryTransition cbs ns t rest =
     (case fst (transitionState cbs ns None t) of
        None \<Rightarrow> rest (snd (transitionState cbs ns None t))
      | Some (StateTransitionError m) \<Rightarrow> (Rejects (StateTransitionError m), snd (transitionState cbs ns None t))
      | Some (Error m) \<Rightarrow> (Throws (Error m), snd (transitionState cbs ns None t)))"
  by (cases "transitionState cbs ns None t")
     (simp add: tryTransition_def split: option.splits exn.splits)

lemma connectOpen_core:
  "core (snd (connectOpen wsNew t)) =
     (state t, transitioningState t,
      (case wsNew of None \<Rightarrow> Some (nextId t + 1) | Some e \<Rightarrow> connectPromise t),
      disconnectPromise t,
      (case wsNew of None \<Rightarrow> Some (nextId t) | Some e \<Rightarrow> None))"
  by (simp add: connectOpen_def core_def Let_def split: option.splits)

lemma disconnectClose_core:
  "core (snd (disconnectClose wsClose t)) =
     (state t, transitioningState t, connectPromise t,
      (case ws t of None \<Rightarrow> disconnectPromise t | Some w \<Rightarrow> Some (nextId t)), ws t)"
  by (simp add: disconnectClose_def core_def Let_def settle_def split: option.splits)

lemma connect_state:
  "state (snd (connect cbs wsNew t)) = state t
   \<or> (validTransition (state t) Connecting \<and> state (snd (connect cbs wsNew t)) = Connecting)"
proof -
  have "state (snd (connectOpen wsNew s)) = state s" for s :: "'a transport"
    using connectOpen_core[of wsNew s] by (simp add: core_def)
  then show ?thesis
    using transitionState_state[of cbs Connecting None t]
    by (auto simp: connect_def connect_impl_def tryTransition_cases
        split: TransportState.splits option.splits exn.splits if_splits)
qed

lemma disconnect_state:
  "state (snd (disconnect cbs wsClose t)) = state t
   \<or> (validTransition (state t) Disconnecting \<and> state (snd (disconnect cbs wsClose t)) = Disconnecting)"
proof -
  have "state (snd (disconnectClose wsClose s)) = state s" for s :: "'a transport"
    using disconnectClose_core[of wsClose s] by (simp add: core_def)
  then show ?thesis
    using transitionState_state[of cbs Disconnecting None t]
    by (auto simp: disconnect_def disconnect_impl_def tryTransition_cases
        split: TransportState.splits option.splits exn.splits if_splits)
qed

lemma handle_state:
  "state (handle cbs ev t) = state t \<or> legalTransition (state t) (state (handle cbs ev t))"
proof (cases ev)
  case (CallConnect w)
  then show ?thesis using connect_state[of cbs w t] by (auto simp: handle_def valid_legal)
next
  case (CallDisconnect w)
  then show ?thesis using disconnect_state[of cbs w t] by (auto simp: handle_def valid_legal)
next
  case (ConnectFailure x)
  then show ?thesis
    using transitionState_state[of cbs Disconnected "Some x" t]
    by (cases "transitionState cbs Disconnected (Some x) t")
       (auto simp: handle_def connectFailureTask_def valid_legal split: option.splits if_splits)
next
  case (WebSocketOpen w)
  then show ?thesis
    using transitionState_state[of cbs Connected None t]
    by (auto simp: handle_def onWebSocketOpen_def valid_legal split: if_splits)
next
  case (WebSocketClose w m)
  then show ?thesis
    using transitionState_state[of cbs Disconnected _ "t\<lparr>ws := None\<rparr>"]
    by (auto simp: handle_def onWebSocketClose_def valid_legal Let_def split: if_splits)
qed


lemma in_flight_call_ignores_callbacks:
  assumes "transitioningState t"
  shows "connect cbs wsNew t = connect cbs' wsNew' t"
    and "disconnect cbs wsClose t = disconnect cbs' wsClose' t"
  using assms
  by (simp_all add: connect_def connect_impl_def disconnect_def disconnect_impl_def tryTransition_def
      transitionState_in_flight split: TransportState.splits option.splits)

lemma transitionState_success:
  assumes "fst (transitionState cbs ns e t) = None"
  shows "\<not> transitioningState t \<and> validTransition (state t) ns
       \<and> state (snd (transitionState cbs ns e t)) = ns
       \<and> \<not> transitioningState (snd (transitionState cbs ns e t))"
proof -
  have f: "\<not> transitioningState t"
    using assms by (auto simp: transitionState_in_flight)
  have v: "validTransition (state t) ns"
  proof (rule ccontr)
    assume "\<not> validTransition (state t) ns"
    then have "transitionBody cbs ns e (t\<lparr>transitioningState := True\<rparr>)
                = (Some (Error (''Invalid state transition from '' @ stateName (state t) @ '' to ''
                                 @ stateName ns)), t\<lparr>transitioningState := True\<rparr>)"
      using transitionBody_invalid[of "t\<lparr>transitioningState := True\<rparr>" ns cbs e] by simp
    with assms f show False by (simp add: transitionState_def seq_def)
  qed
  from transitionState_core[OF f, of cbs ns e] v assms show ?thesis
    using f by (simp add: core_def)
qed

lemma newTransport_consistent: "promisesConsistent (newTransport keepAlive u)"
  by (simp add: promisesConsistent_def newTransport_def)

lemma connect_consistent:
  assumes "promisesConsistent t"
  shows "promisesConsistent (snd (connect cbs wsNew t))"
proof -
  let ?r = "transitionState cbs Connecting None t"
  have c: "promisesConsistent (snd ?r)" by (rule transitionState_consistent[OF assms])
  have "fst ?r = None \<Longrightarrow> promisesConsistent (snd (connectOpen wsNew (snd ?r)))"
    using c transitionState_success[of cbs Connecting None t] connectOpen_core[of wsNew "snd ?r"]
    unfolding promisesConsistent_core
    by (auto simp: core_def split: option.splits)
  with c assms show ?thesis
    by (auto simp: connect_def connect_impl_def tryTransition_cases
        split: TransportState.splits option.splits exn.splits)
qed

lemma disconnect_consistent:
  assumes "promisesConsistent t"
  shows "promisesConsistent (snd (disconnect cbs wsClose t))"
proof -
  let ?r = "transitionState cbs Disconnecting None t"
  have c: "promisesConsistent (snd ?r)" by (rule transitionState_consistent[OF assms])
  have "fst ?r = None \<Longrightarrow> promisesConsistent (snd (disconnectClose wsClose (snd ?r)))"
    using c transitionState_success[of cbs Disconnecting None t] disconnectClose_core[of wsClose "snd ?r"]
    unfolding promisesConsistent_core
    by (auto simp: core_def split: option.splits)
  with c assms show ?thesis
    by (auto simp: disconnect_def disconnect_impl_def tryTransition_cases
        split: TransportState.splits option.splits exn.splits)
qed

lemma handle_consistent:
  assumes "promisesConsistent t"
  shows "promisesConsistent (handle cbs ev t)"
proof (cases ev)
  case (CallConnect w)
  then show ?thesis using connect_consistent[OF assms] by (simp add: handle_def)
next
  case (CallDisconnect w)
  then show ?thesis using disconnect_consistent[OF assms] by (simp add: handle_def)
next
  case (ConnectFailure x)
  then show ?thesis
    using transitionState_consistent[OF assms, of cbs Disconnected "Some x"]
    by (cases "transitionState cbs Disconnected (Some x) t")
       (auto simp: handle_def connectFailureTask_def split: option.splits)
next
  case (WebSocketOpen w)
  then show ?thesis
    using transitionState_consistent[OF assms, of cbs Connected None] assms
    by (auto simp: handle_def onWebSocketOpen_def)
next
  case (WebSocketClose w m)
  have "promisesConsistent (t\<lparr>ws := None\<rparr>)" using assms by (simp add: promisesConsistent_def)
  from transitionState_consistent[OF this] WebSocketClose assms show ?thesis
    by (auto simp: handle_def onWebSocketClose_def Let_def)
qed

lemma run_consistent:
  "promisesConsistent t \<Longrightarrow> promisesConsistent (run cbs evs t)"
  by (induction evs arbitrary: t) (simp_all add: handle_consistent)

lemma listener_in_flight:
  assumes f: "transitioningState t" and c: "promisesConsistent t"
      and v: "validTransition (state t) ns"
      and L: "\<And>t'. transitioningState t' \<Longrightarrow> promisesConsistent t' \<Longrightarrow> L t' = (app t' @ [x], None)"
  shows "app (snd (transitionBody (noCallbacks\<lparr>stateListener := L\<rparr>) ns e t)) = app t @ [x]"
proof -
  let ?P = "\<lambda>t'. app t' = app t @ [x]"
  have n: "\<And>t'. invoke noListener t' = (None, t')"
    by (simp add: invoke_def noListener_def)
  show ?thesis
    unfolding transitionBody_def Let_def using v
    apply (simp only: if_True if_False not_True_eq_False simp_thms)
    apply (intro seq_keeps[where P="?P"])
    apply (simp_all add: noCallbacks_def n settle_def startSendingKeepAlives_def
        stopSendingKeepAlives_def split: option.splits)
    using f c apply (auto simp: invoke_def L promisesConsistent_def)
    done
qed

subsection \<open>Callbacks run while the transition is in progress\<close>

lemma callbacks_called_in_flight:
  assumes "promisesConsistent t"
  shows "transitionState
           (guardCallbacks (\<lambda>t'. transitioningState t' \<and> promisesConsistent t') cbs) ns e t
         = transitionState cbs ns e t"
proof (cases "transitioningState t")
  case True
  then show ?thesis by (simp add: transitionState_in_flight)
next
  case False
  let ?Q = "\<lambda>c. case c of (s, f, cp, dp, w) \<Rightarrow>
              f \<and> (cp \<noteq> None \<longrightarrow> s = Connecting) \<and> (dp \<noteq> None \<longrightarrow> s = Disconnecting)"
  have "(\<lambda>t'::'a transport. transitioningState t' \<and> promisesConsistent t') = (\<lambda>t'. ?Q (core t'))"
    by (rule ext) (simp add: promisesConsistent_def core_def)
  then have eq: "guardCallbacks (\<lambda>t'. transitioningState t' \<and> promisesConsistent t') cbs
                 = guardCallbacks (\<lambda>t'. ?Q (core t')) cbs"
    by simp
  have "transitionBody (guardCallbacks (\<lambda>t'. ?Q (core t')) cbs) ns e (t\<lparr>transitioningState := True\<rparr>)
        = transitionBody cbs ns e (t\<lparr>transitioningState := True\<rparr>)"
    by (rule transitionBody_guard) (use assms in \<open>cases "state t"; cases ns; simp add: promisesConsistent_def\<close>)
  then show ?thesis using False by (simp only: transitionState_def eq if_False)
qed

text \<open>
  C3. While a transition is in progress on a transport that keeps the
  relation between promises and state (every reachable transport does:
  \<open>newTransport_consistent\<close>, \<open>handle_consistent\<close>; every callback of a transition is
  called on such a transport: \<open>callbacks_called_in_flight\<close>), \<open>connect()\<close> and
  \<open>disconnect()\<close> each return a promise rejected with the \<open>StateTransitionError\<close> "Loop
  detected." and leave every field of the transport as it was, whatever the callbacks
  and whatever the WebSocket would have done.
\<close>

theorem connect_disconnect_in_flight:
  assumes "transitioningState t" and "promisesConsistent t"
  shows "connect cbs wsNew t = (Rejects (StateTransitionError ''Loop detected.''), t)
       \<and> disconnect cbs wsClose t = (Rejects (StateTransitionError ''Loop detected.''), t)"
proof -
  have loop: "transitionState cbs ns None t = (Some (StateTransitionError ''Loop detected.''), t)" for ns
    using assms(1) by (simp add: transitionState_def transitionLoopDetectedError_def)
  have c: "state t \<noteq> Connecting \<Longrightarrow> connectPromise t = None"
    and d: "state t \<noteq> Disconnecting \<Longrightarrow> disconnectPromise t = None"
    using assms(2) by (auto simp: promisesConsistent_def)
  have "connect cbs wsNew t = (Rejects (StateTransitionError ''Loop detected.''), t)"
    using assms(1) c
    by (cases "state t")
       (simp_all add: connect_def connect_impl_def tryTransition_def loop transitionLoopDetectedError_def)
  moreover have "disconnect cbs wsClose t = (Rejects (StateTransitionError ''Loop detected.''), t)"
    using assms(1) d
    by (cases "state t")
       (simp_all add: disconnect_def disconnect_impl_def tryTransition_def loop
          transitionLoopDetectedError_def)
  ultimately show ?thesis by blast
qed

theorem connect_disconnect_in_flight_witness:
  "transitioningState (connectedTransport\<lparr>transitioningState := True\<rparr>)
   \<and> promisesConsistent (connectedTransport\<lparr>transitioningState := True\<rparr>)
   \<and> connect reconnectCallbacks None (connectedTransport\<lparr>transitioningState := True\<rparr>)
       = (Rejects (StateTransitionError ''Loop detected.''), connectedTransport\<lparr>transitioningState := True\<rparr>)
   \<and> disconnect reconnectCallbacks None (connectedTransport\<lparr>transitioningState := True\<rparr>)
       = (Rejects (StateTransitionError ''Loop detected.''), connectedTransport\<lparr>transitioningState := True\<rparr>)"
proof -
  have f: "transitioningState (connectedTransport\<lparr>transitioningState := True\<rparr>)" by simp
  have c: "promisesConsistent (connectedTransport\<lparr>transitioningState := True\<rparr>)"
    by (simp add: promisesConsistent_def connectedTransport_eval newTransport_def)
  from connect_disconnect_in_flight [OF f c, of reconnectCallbacks None None] f c
  show ?thesis by simp
qed

text \<open>
  C1. The flag \<open>transitioningState\<close> is not cleared before the observers are
  notified: it is set before the validation and cleared by the last statement of
  \<open>transitionState\<close>, after the promises have been settled. What holds instead: every
  callback of a transition (state-change listeners, \<open>onConnect\<close>, \<open>onDisconnect\<close>, legacy
  listeners) is called with the flag set, since putting the assertion "the flag is set"
  in front of each changes nothing; the body of the transition, from the validation to
  the settlement of the promises, ends with the flag still set, and the flag is cleared
  only when it ends without an exception; and on a transport with no transition in
  progress, a state-change listener that calls \<open>connect()\<close> or \<open>disconnect()\<close>
  synchronously during a valid transition sees the flag set and gets a promise rejected
  with the \<open>StateTransitionError\<close> "Loop detected.", the transport ending in the requested
  state: the call is neither run nor queued.
\<close>

theorem transitionState_holds_flag:
  fixes t :: "'u transport" and s :: "(bool \<times> callResult) list transport"
  assumes "\<not> transitioningState s" and "promisesConsistent s"
      and "validTransition (state s) newState"
  shows "transitionState (guardCallbacks transitioningState cbs) newState error t
           = transitionState cbs newState error t
       \<and> transitioningState (snd (transitionBody cbs newState error (t\<lparr>transitioningState := True\<rparr>)))
       \<and> (\<not> transitioningState t \<longrightarrow>
            transitionState cbs newState error t
              = seq (transitionBody cbs newState error (t\<lparr>transitioningState := True\<rparr>))
                    (\<lambda>t'. (None, t'\<lparr>transitioningState := False\<rparr>)))
       \<and> (fst (transitionState cbs newState error t) = None \<longrightarrow>
            \<not> transitioningState (snd (transitionState cbs newState error t)))
       \<and> app (snd (transitionState (noCallbacks\<lparr>stateListener := callsConnect wsNew\<rparr>) newState error s))
           = app s @ [(True, Rejects (StateTransitionError ''Loop detected.''))]
       \<and> app (snd (transitionState (noCallbacks\<lparr>stateListener := callsDisconnect wsClose\<rparr>) newState error s))
           = app s @ [(True, Rejects (StateTransitionError ''Loop detected.''))]
       \<and> state (snd (transitionState (noCallbacks\<lparr>stateListener := callsConnect wsNew\<rparr>) newState error s))
           = newState
       \<and> state (snd (transitionState (noCallbacks\<lparr>stateListener := callsDisconnect wsClose\<rparr>) newState error s))
           = newState"
proof -
  have a: "transitionState (guardCallbacks transitioningState cbs) newState error t
             = transitionState cbs newState error t"
  proof (cases "transitioningState t")
    case True
    then show ?thesis by (simp add: transitionState_in_flight)
  next
    case False
    let ?Q = "\<lambda>c. case c of (s, f, cp, dp, w) \<Rightarrow> f"
    have "transitioningState = (\<lambda>t'::'u transport. ?Q (core t'))"
      by (rule ext) (simp add: core_def)
    then have eq: "guardCallbacks transitioningState cbs = guardCallbacks (\<lambda>t'. ?Q (core t')) cbs"
      by simp
    have "transitionBody (guardCallbacks (\<lambda>t'. ?Q (core t')) cbs) newState error
             (t\<lparr>transitioningState := True\<rparr>)
          = transitionBody cbs newState error (t\<lparr>transitioningState := True\<rparr>)"
      by (rule transitionBody_guard) simp
    then show ?thesis using False by (simp only: transitionState_def eq if_False)
  qed
  have b: "transitioningState (snd (transitionBody cbs newState error (t\<lparr>transitioningState := True\<rparr>)))"
    by (simp add: transitionBody_flag)
  have c: "\<not> transitioningState t \<longrightarrow>
            transitionState cbs newState error t
              = seq (transitionBody cbs newState error (t\<lparr>transitioningState := True\<rparr>))
                    (\<lambda>t'. (None, t'\<lparr>transitioningState := False\<rparr>))"
    by (simp add: transitionState_def)
  have d: "fst (transitionState cbs newState error t) = None \<longrightarrow>
            \<not> transitioningState (snd (transitionState cbs newState error t))"
    using transitionState_success[of cbs newState error t] by blast
  let ?s = "s\<lparr>transitioningState := True\<rparr>"
  have s1: "transitioningState ?s" by simp
  have s2: "promisesConsistent ?s" using assms(2) by (simp add: promisesConsistent_def)
  have s3: "validTransition (state ?s) newState" using assms(3) by simp
  have Lc: "callsConnect wsNew t' = (app t' @ [(True, Rejects (StateTransitionError ''Loop detected.''))], None)"
    if "transitioningState t'" "promisesConsistent t'" for t'
    using in_flight_rejected[OF that, of noCallbacks wsNew] that(1) by (simp add: callsConnect_def)
  have Ld: "callsDisconnect wsClose t' = (app t' @ [(True, Rejects (StateTransitionError ''Loop detected.''))], None)"
    if "transitioningState t'" "promisesConsistent t'" for t'
    using in_flight_rejected[OF that, of noCallbacks _ wsClose] that(1) by (simp add: callsDisconnect_def)
  have app_seq: "app (snd (seq r (\<lambda>t'. (None, t'\<lparr>transitioningState := False\<rparr>)))) = app (snd r)"
    for r :: "(bool \<times> callResult) list transport stmt"
    by (cases r) (simp add: seq_def split: option.splits)
  have e: "app (snd (transitionState (noCallbacks\<lparr>stateListener := callsConnect wsNew\<rparr>) newState error s))
           = app s @ [(True, Rejects (StateTransitionError ''Loop detected.''))]"
    using listener_in_flight[OF s1 s2 s3 Lc, of error] assms(1)
    by (simp add: transitionState_def app_seq)
  have f: "app (snd (transitionState (noCallbacks\<lparr>stateListener := callsDisconnect wsClose\<rparr>) newState error s))
           = app s @ [(True, Rejects (StateTransitionError ''Loop detected.''))]"
    using listener_in_flight[OF s1 s2 s3 Ld, of error] assms(1)
    by (simp add: transitionState_def app_seq)
  have g: "state (snd (transitionState cbs' newState error s)) = newState" for cbs'
    using assms(1,3) by (simp add: transitionState_state)
  show ?thesis using a b c d e f g by blast
qed

theorem transitionState_holds_flag_witness:
  "\<not> transitioningState connectedTransport \<and> promisesConsistent connectedTransport
   \<and> validTransition (state connectedTransport) Disconnected
   \<and> app (snd (transitionState (noCallbacks\<lparr>stateListener := callsConnect None\<rparr>) Disconnected None
                  connectedTransport))
       = [(True, Rejects (StateTransitionError ''Loop detected.''))]
   \<and> state (snd (transitionState (noCallbacks\<lparr>stateListener := callsConnect None\<rparr>) Disconnected None
                    connectedTransport))
       = Disconnected"
proof -
  have h1: "\<not> transitioningState connectedTransport"
    by (simp add: connectedTransport_eval newTransport_def)
  have h2: "promisesConsistent connectedTransport"
    by (simp add: promisesConsistent_def connectedTransport_eval newTransport_def)
  have h3: "validTransition (state connectedTransport) Disconnected"
    by (simp add: connectedTransport_eval)
  have a: "app connectedTransport = []"
    by (simp add: connectedTransport_eval newTransport_def)
  from transitionState_holds_flag [OF h1 h2 h3, of noCallbacks None connectedTransport None None] h1 h2 h3 a
  show ?thesis by simp
qed

text \<open>
  The claim as stated fails on a transport that has connected and whose state-change
  listener calls \<open>connect()\<close> when it is told \<open>Disconnected\<close>: at the "close" event of
  the socket the listener runs with the flag still set, its call is rejected with the
  loop error, and the transport is left \<open>Disconnected\<close> with nothing pending.
\<close>

theorem reentrant_connect_counterexample:
  "app (run reconnectCallbacks [WebSocketClose 0 ''WebSocket closed''] connectedTransport)
     = [(True, Rejects (StateTransitionError ''Loop detected.''))]
   \<and> state (run reconnectCallbacks [WebSocketClose 0 ''WebSocket closed''] connectedTransport)
       = Disconnected
   \<and> \<not> transitioningState
         (run reconnectCallbacks [WebSocketClose 0 ''WebSocket closed''] connectedTransport)"
  by (simp add: connectedTransport_eval handle_def connect_def connect_impl_def newTransport_def
      tryTransition_def transitionState_def transitionBody_def seq_def invoke_def noCallbacks_def
      noListener_def connectOpen_def Let_def onWebSocketClose_def settle_def
      stopSendingKeepAlives_def reconnectCallbacks_def reconnectOnDisconnected_def callsConnect_def
      transitionLoopDetectedError_def)



subsection \<open>Legal transitions\<close>

text \<open>
  C4. The \<open>switch\<close> of \<open>transitionState\<close> admits exactly the transitions
  the specification lists (\<open>valid_legal\<close>). A call of \<open>transitionState\<close> leaves the state
  as it was or moves it to the requested state along a legal transition, and it does
  move it when the transition is legal and no transition is in progress. A request for
  any other transition throws (the loop error when a transition is in progress, else
  the error "Invalid state transition from ... to ...") and changes no field but the flag
  \<open>transitioningState\<close>, which the second case leaves set. Every event that reaches the
  transport (a call of \<open>connect()\<close> or \<open>disconnect()\<close>, the failure task of \<open>connect()\<close>,
  the "open" and "close" events of a socket) leaves the state as it was or moves it
  along a legal transition.
\<close>

theorem transport_transitions_legal:
  "(state (snd (transitionState cbs ns e t)) = state t
      \<or> (legalTransition (state t) ns \<and> state (snd (transitionState cbs ns e t)) = ns))
   \<and> (legalTransition (state t) ns \<and> \<not> transitioningState t \<longrightarrow>
        state (snd (transitionState cbs ns e t)) = ns)
   \<and> (\<not> legalTransition (state t) ns \<longrightarrow>
        transitionState cbs ns e t =
          (if transitioningState t then (Some (StateTransitionError ''Loop detected.''), t)
           else (Some (Error (''Invalid state transition from '' @ stateName (state t) @ '' to ''
                               @ stateName ns)), t\<lparr>transitioningState := True\<rparr>)))
   \<and> (state (handle cbs ev t) = state t \<or> legalTransition (state t) (state (handle cbs ev t)))"
proof -
  have a: "state (snd (transitionState cbs ns e t)) = state t
      \<or> (legalTransition (state t) ns \<and> state (snd (transitionState cbs ns e t)) = ns)"
    by (simp add: transitionState_state valid_legal)
  have b: "legalTransition (state t) ns \<and> \<not> transitioningState t \<longrightarrow>
        state (snd (transitionState cbs ns e t)) = ns"
    by (simp add: transitionState_state valid_legal)
  have c: "\<not> legalTransition (state t) ns \<longrightarrow>
        transitionState cbs ns e t =
          (if transitioningState t then (Some (StateTransitionError ''Loop detected.''), t)
           else (Some (Error (''Invalid state transition from '' @ stateName (state t) @ '' to ''
                               @ stateName ns)), t\<lparr>transitioningState := True\<rparr>))"
  proof
    assume n: "\<not> legalTransition (state t) ns"
    show "transitionState cbs ns e t =
          (if transitioningState t then (Some (StateTransitionError ''Loop detected.''), t)
           else (Some (Error (''Invalid state transition from '' @ stateName (state t) @ '' to ''
                               @ stateName ns)), t\<lparr>transitioningState := True\<rparr>))"
    proof (cases "transitioningState t")
      case True
      then show ?thesis by (simp add: transitionState_in_flight)
    next
      case False
      have "\<not> validTransition (state (t\<lparr>transitioningState := True\<rparr>)) ns"
        using n by (simp add: valid_legal)
      from transitionBody_invalid[OF this, of cbs e] False show ?thesis
        by (simp add: transitionState_def seq_def)
    qed
  qed
  from a b c handle_state[of cbs ev t] show ?thesis by blast
qed

theorem transport_transitions_legal_witness:
  "\<not> legalTransition (state (newTransport False ())) Connected
   \<and> transitionState noCallbacks Connected None (newTransport False ())
       = (Some (Error ''Invalid state transition from Disconnected to Connected''),
          (newTransport False ())\<lparr>transitioningState := True\<rparr>)
   \<and> legalTransition (state (newTransport False ())) Connecting
   \<and> \<not> transitioningState (newTransport False ())
   \<and> state (snd (transitionState noCallbacks Connecting None (newTransport False ()))) = Connecting
   \<and> state (handle noCallbacks (WebSocketOpen 0) (newTransport False ())) = Disconnected"
proof -
  have s: "state (newTransport False ()) = Disconnected"
    and f: "\<not> transitioningState (newTransport False ())"
    by (simp_all add: newTransport_def)
  have n: "\<not> legalTransition (state (newTransport False ())) Connected" by (simp add: s)
  have l: "legalTransition (state (newTransport False ())) Connecting" by (simp add: s)
  have h: "state (handle noCallbacks (WebSocketOpen 0) (newTransport False ())) = Disconnected"
    by (simp add: handle_def onWebSocketOpen_def newTransport_def)
  from transport_transitions_legal [of noCallbacks Connected None "newTransport False ()" "WebSocketOpen 0"]
       transport_transitions_legal [of noCallbacks Connecting None "newTransport False ()" "WebSocketOpen 0"]
       n l f h
  show ?thesis by (simp add: s stateName_def)
qed

section \<open>Properties of the publisher\<close>

lemma publishedPublisher_eval:
  "publishedPublisher =
     \<lparr> options_expires = Num 3600, options_body = Some ''state'', options_unpublishOnClose = True,
       pubRequestBody = Some ''state'', pubRequestExpires = Num 3600, pubRequestEtag = Some ''abc'',
       publishRefreshTimer = Some (Num 3240000), disposed = False, publisherState = Published,
       effects = [SendPublish (Num 3600) None (Some ''state''), StateEvent Published] \<rparr>"
  by (simp add: publishedPublisher_def receiveResponse_def receive2xx_def okResponse_def publish_def
      newPublisher_def clearRefreshTimer_def sendPublishRequest_def effect_def stateTransition_def
      seq_def Let_def)

lemma refreshingPublisher_eval:
  "refreshingPublisher =
     \<lparr> options_expires = Num 3600, options_body = Some ''state'', options_unpublishOnClose = True,
       pubRequestBody = None, pubRequestExpires = Num 3600, pubRequestEtag = Some ''abc'',
       publishRefreshTimer = None, disposed = False, publisherState = Published,
       effects = [SendPublish (Num 3600) None (Some ''state''), StateEvent Published,
                  SendPublish (Num 3600) (Some ''abc'') None] \<rparr>"
  by (simp add: refreshingPublisher_def publishedPublisher_eval refreshRequest_def
      clearRefreshTimer_def sendPublishRequest_def effect_def Let_def)

text \<open>
  C6. The claim holds of a 200-class response that
  arrives while the state allows the transition it asks for (\<open>receiveResponse_2xx\<close>
  below): first publication, or publication after an unpublish. It fails on the response
  to a refresh: the publisher is already \<open>Published\<close>, \<open>stateTransition\<close> does not admit
  \<open>Published\<close> to \<open>Published\<close>, and \<open>receiveResponse\<close> throws after it has stored the
  entity tag and set the refresh timer. The input is the specification's own scenario:
  \<open>publish("state")\<close>, 200 with \<open>SIP-ETag: abc\<close> and \<open>Expires: 3600\<close>, the refresh sent by
  the timer, and the same response again.
\<close>

theorem receiveResponse_refresh_throws:
  "receiveResponse okResponse refreshingPublisher
     = (Some (Error ''Invalid state transition from Published to Published''),
        refreshingPublisher\<lparr>publishRefreshTimer := Some (Num 3240000)\<rparr>)"
  by (simp add: refreshingPublisher_eval receiveResponse_def receive2xx_def okResponse_def
      stateTransition_def seq_def Let_def publisherStateName_def)


text \<open>
  Where the state admits the transition, a 200-class response does what the claim says:
  the entity tag is stored when present and a warning logged when absent, the expiry
  becomes the effective one, and then either the timer is set to 900 milliseconds per
  second of expiry and the state is \<open>Published\<close>, or (expiry 0) the state is
  \<open>Unpublished\<close> and no timer is left.
\<close>

lemma receiveResponse_2xx:
  assumes "200 \<le> statusCode rsp" and "statusCode rsp \<le> 299"
      and "validPublisherTransition (publisherState p)
             (if effectiveExpires rsp p \<noteq> Num 0 then Published else Unpublished)"
  shows "fst (receiveResponse rsp p) = None
       \<and> pubRequestExpires (snd (receiveResponse rsp p)) = effectiveExpires rsp p
       \<and> (effectiveExpires rsp p \<noteq> Num 0 \<longrightarrow>
            publisherState (snd (receiveResponse rsp p)) = Published
            \<and> publishRefreshTimer (snd (receiveResponse rsp p))
                = Some (js_times (effectiveExpires rsp p) (Num 900))
            \<and> pubRequestEtag (snd (receiveResponse rsp p))
                = (case sipETag rsp of Some etag \<Rightarrow> Some etag | None \<Rightarrow> pubRequestEtag p))
       \<and> (effectiveExpires rsp p = Num 0 \<longrightarrow>
            publisherState (snd (receiveResponse rsp p)) = Unpublished
            \<and> publishRefreshTimer (snd (receiveResponse rsp p)) = None)
       \<and> (sipETag rsp = None \<longrightarrow>
            Warn ''SIP-ETag header missing in a 200-class response to PUBLISH''
              \<in> set (effects (snd (receiveResponse rsp p))))"
proof -
  let ?E = "effectiveExpires rsp p"
  have code: "\<not> (100 \<le> statusCode rsp \<and> statusCode rsp \<le> 199)" using assms(1) by simp
  consider (acc) x where "expiresHeader rsp = Some x" "js_le (Num 0) x \<and> js_le x (pubRequestExpires p)"
    | (rej) x where "expiresHeader rsp = Some x" "\<not> (js_le (Num 0) x \<and> js_le x (pubRequestExpires p))"
    | (none) "expiresHeader rsp = None"
    by (cases "expiresHeader rsp") auto
  then show ?thesis
  proof cases
    case acc
    then have E: "?E = x" by (simp add: effectiveExpires_def)
    show ?thesis using assms acc code unfolding E
      by (cases "sipETag rsp"; cases "x = Num 0")
         (simp_all add: receiveResponse_def receive2xx_def stateTransition_def seq_def Let_def
            effect_def clearRefreshTimer_def)
  next
    case rej
    then have E: "?E = pubRequestExpires p" by (auto simp: effectiveExpires_def)
    show ?thesis using assms rej code unfolding E
      apply (cases "sipETag rsp"; cases "pubRequestExpires p = Num 0")
         apply (simp_all add: receiveResponse_def receive2xx_def stateTransition_def seq_def Let_def
            effect_def clearRefreshTimer_def)
         apply blast+
      done
  next
    case none
    then have E: "?E = pubRequestExpires p" by (simp add: effectiveExpires_def)
    show ?thesis using assms none code unfolding E
      by (cases "sipETag rsp"; cases "pubRequestExpires p = Num 0")
         (simp_all add: receiveResponse_def receive2xx_def stateTransition_def seq_def Let_def
            effect_def clearRefreshTimer_def)
  qed
qed



section \<open>Properties of the user agent\<close>

subsection \<open>Stopping\<close>

lemma started_append:
  "started (xs @ ys) = (if firstRejection xs = None then map fst xs @ started ys else started xs)"
  by (induction xs rule: started.induct) simp_all

lemma firstRejection_append:
  "firstRejection (xs @ ys) = (case firstRejection xs of None \<Rightarrow> firstRejection ys | Some e \<Rightarrow> Some e)"
  by (induction xs rule: firstRejection.induct) simp_all

lemma started_all_resolved:
  "\<forall>s \<in> set xs. snd s = Resolved \<Longrightarrow> started xs = map fst xs \<and> firstRejection xs = None"
  by (induction xs rule: started.induct) simp_all

lemma act_fields [simp]:
  "actions (act a ua) = actions ua @ [a]"
  "transportDispose (act a ua) = transportDispose ua"
  "userAgentState (act a ua) = userAgentState ua"
  by (simp_all add: act_def)

lemma deleteEntry_fields [simp]:
  "actions (deleteEntry c i ua) = actions ua"
  "transportDispose (deleteEntry c i ua) = transportDispose ua"
  "userAgentState (deleteEntry c i ua) = userAgentState ua"
  by (cases c; simp add: deleteEntry_def)+

lemma disposeAll_then:
  assumes "transportDispose ua = T"
      and "\<And>u. transportDispose u = T \<Longrightarrow>
             fst (k u) = firstRejection Q \<and> actions (snd (k u)) = actions u @ started Q"
  shows "fst (seq (disposeAll c xs ua) k) = firstRejection (disposals c xs @ Q)
       \<and> actions (snd (seq (disposeAll c xs ua) k)) = actions ua @ started (disposals c xs @ Q)"
  using assms(1)
proof (induction xs arbitrary: ua)
  case Nil
  then show ?case using assms(2)[of ua] by (simp add: seq_def disposals_def)
next
  case (Cons x xs)
  obtain i outcome where x: "x = (i, outcome)" by (cases x)
  let ?ua1 = "deleteEntry c i (act (Dispose c i) ua)"
  have T: "transportDispose ?ua1 = T" using Cons.prems by simp
  show ?case
  proof (cases outcome)
    case Resolved
    with x Cons.IH[OF T] show ?thesis
      by (simp add: disposals_def Let_def)
  next
    case (Rejected e)
    with x show ?thesis
      by (simp add: disposals_def Let_def seq_def)
  qed
qed

lemma stop_started:
  assumes "userAgentState ua = Started"
  shows "fst (stop ua) = (case firstRejection (stopPlan ua) of None \<Rightarrow> Resolved | Some e \<Rightarrow> Rejected e)
       \<and> actions (snd (stop ua)) = actions ua @ started (stopPlan ua)"
proof -
  let ?T = "transportDispose ua"
  let ?Q6 = "[(DisposeTransport, ?T), (DisposeCore, Resolved)]"
  let ?k6 = "\<lambda>ua5. seq (case transportDispose ua5 of
                     Resolved \<Rightarrow> (None, act DisposeTransport ua5)
                   | Rejected e \<Rightarrow> (Some e, act DisposeTransport ua5)) (\<lambda>ua6. (None, act DisposeCore ua6))"
  have k6: "fst (?k6 u) = firstRejection ?Q6 \<and> actions (snd (?k6 u)) = actions u @ started ?Q6"
    if "transportDispose u = ?T" for u
    using that by (cases "transportDispose ua") (simp_all add: seq_def)
  let ?k5 = "\<lambda>ua4. seq (disposeAll Publishers (publishers_of ua) ua4) ?k6"
  let ?Q5 = "disposals Publishers (publishers_of ua) @ ?Q6"
  have k5: "fst (?k5 u) = firstRejection ?Q5 \<and> actions (snd (?k5 u)) = actions u @ started ?Q5"
    if "transportDispose u = ?T" for u
    by (rule disposeAll_then[OF that]) (rule k6)
  let ?k4 = "\<lambda>ua3. seq (disposeAll Subscriptions (subscriptions_of ua) ua3) ?k5"
  let ?Q4 = "disposals Subscriptions (subscriptions_of ua) @ ?Q5"
  have k4: "fst (?k4 u) = firstRejection ?Q4 \<and> actions (snd (?k4 u)) = actions u @ started ?Q4"
    if "transportDispose u = ?T" for u
    by (rule disposeAll_then[OF that]) (rule k5)
  let ?k3 = "\<lambda>ua2. seq (disposeAll Sessions (sessions_of ua) ua2) ?k4"
  let ?Q3 = "disposals Sessions (sessions_of ua) @ ?Q4"
  have k3: "fst (?k3 u) = firstRejection ?Q3 \<and> actions (snd (?k3 u)) = actions u @ started ?Q3"
    if "transportDispose u = ?T" for u
    by (rule disposeAll_then[OF that]) (rule k4)
  let ?k2 = "\<lambda>ua1. seq (disposeAll Registerers (registerers_of ua) ua1) ?k3"
  let ?Q2 = "disposals Registerers (registerers_of ua) @ ?Q3"
  have k2: "fst (?k2 u) = firstRejection ?Q2 \<and> actions (snd (?k2 u)) = actions u @ started ?Q2"
    if "transportDispose u = ?T" for u
    by (rule disposeAll_then[OF that]) (rule k3)
  let ?ua1 = "act (StateChange Stopped) (ua\<lparr>userAgentState := Stopped\<rparr>)"
  have r1: "userAgentTransitionState Stopped ua = (stateListenerThrows ua, ?ua1)"
    using assms by (simp add: userAgentTransitionState_def)
  have T1: "transportDispose ?ua1 = ?T" by simp
  have plan: "stopPlan ua = (StateChange Stopped,
                 case stateListenerThrows ua of None \<Rightarrow> Resolved | Some e \<Rightarrow> Rejected e) # ?Q2"
    by (simp add: stopPlan_def)
  have whole: "fst (seq (userAgentTransitionState Stopped ua) ?k2) = firstRejection (stopPlan ua)
             \<and> actions (snd (seq (userAgentTransitionState Stopped ua) ?k2))
                 = actions ua @ started (stopPlan ua)"
    using k2[OF T1]
    by (cases "stateListenerThrows ua") (simp_all add: r1 plan seq_def)
  have "stop ua = (case seq (userAgentTransitionState Stopped ua) ?k2 of
                     (None, ua') \<Rightarrow> (Resolved, ua') | (Some e, ua') \<Rightarrow> (Rejected e, ua'))"
    using assms by (simp add: stop_def Let_def)
  with whole show ?thesis
    by (cases "seq (userAgentTransitionState Stopped ua) ?k2")
       (auto split: option.splits)
qed

text \<open>
  C5. \<open>stop()\<close> on a started user agent takes the steps of \<open>stopPlan\<close> in
  order (the state change, the registerers, the sessions, the subscriptions, the
  publishers, the transport, the core), each after the one before it has resolved, and
  it ends at the first step that is rejected: the returned promise is rejected with that
  error and no later step is started. So it is only when every disposal resolves that
  the transport is disconnected and the core reset. On a stopped user agent \<open>stop()\<close>
  resolves and does nothing.
\<close>

theorem stop_serial:
  "(userAgentState ua = Stopped \<longrightarrow> stop ua = (Resolved, ua))
   \<and> (userAgentState ua = Started \<longrightarrow>
        actions (snd (stop ua)) = actions ua @ started (stopPlan ua)
        \<and> fst (stop ua) = (case firstRejection (stopPlan ua) of
                             None \<Rightarrow> Resolved | Some e \<Rightarrow> Rejected e))
   \<and> (userAgentState ua = Started \<and> (\<forall>s \<in> set (stopPlan ua). snd s = Resolved) \<longrightarrow>
        fst (stop ua) = Resolved
        \<and> actions (snd (stop ua)) =
            actions ua @ [StateChange Stopped]
            @ map (\<lambda>e. Dispose Registerers (fst e)) (registerers_of ua)
            @ map (\<lambda>e. Dispose Sessions (fst e)) (sessions_of ua)
            @ map (\<lambda>e. Dispose Subscriptions (fst e)) (subscriptions_of ua)
            @ map (\<lambda>e. Dispose Publishers (fst e)) (publishers_of ua)
            @ [DisposeTransport, DisposeCore])"
proof -
  have a: "userAgentState ua = Stopped \<longrightarrow> stop ua = (Resolved, ua)"
    by (simp add: stop_def)
  have b: "userAgentState ua = Started \<longrightarrow>
        actions (snd (stop ua)) = actions ua @ started (stopPlan ua)
        \<and> fst (stop ua) = (case firstRejection (stopPlan ua) of
                             None \<Rightarrow> Resolved | Some e \<Rightarrow> Rejected e)"
    using stop_started[of ua] by blast
  have names: "map fst (stopPlan ua) =
            [StateChange Stopped]
            @ map (\<lambda>e. Dispose Registerers (fst e)) (registerers_of ua)
            @ map (\<lambda>e. Dispose Sessions (fst e)) (sessions_of ua)
            @ map (\<lambda>e. Dispose Subscriptions (fst e)) (subscriptions_of ua)
            @ map (\<lambda>e. Dispose Publishers (fst e)) (publishers_of ua)
            @ [DisposeTransport, DisposeCore]"
    by (simp add: stopPlan_def disposals_def comp_def)
  have c: "userAgentState ua = Started \<and> (\<forall>s \<in> set (stopPlan ua). snd s = Resolved) \<longrightarrow>
        fst (stop ua) = Resolved
        \<and> actions (snd (stop ua)) = actions ua @ map fst (stopPlan ua)"
  proof
    assume h: "userAgentState ua = Started \<and> (\<forall>s \<in> set (stopPlan ua). snd s = Resolved)"
    then have "started (stopPlan ua) = map fst (stopPlan ua) \<and> firstRejection (stopPlan ua) = None"
      using started_all_resolved[of "stopPlan ua"] by blast
    with h stop_started[of ua] show "fst (stop ua) = Resolved
        \<and> actions (snd (stop ua)) = actions ua @ map fst (stopPlan ua)"
      by simp
  qed
  from a b c show ?thesis unfolding names by blast
qed

theorem stop_serial_witness:
  "userAgentState startedUserAgent = Started
   \<and> map snd (stopPlan startedUserAgent) = [Resolved, Resolved, Resolved, Resolved, Resolved]
   \<and> fst (stop startedUserAgent) = Resolved
   \<and> actions (snd (stop startedUserAgent)) =
       [StateChange Stopped, Dispose Registerers ''r1'', Dispose Sessions ''call1tagA'',
        DisposeTransport, DisposeCore]
   \<and> userAgentState stoppedUserAgent = Stopped
   \<and> stop stoppedUserAgent = (Resolved, stoppedUserAgent)"
proof -
  have s: "userAgentState startedUserAgent = Started"
    by (simp add: startedUserAgent_def)
  have m: "map snd (stopPlan startedUserAgent) = [Resolved, Resolved, Resolved, Resolved, Resolved]"
    by (simp add: stopPlan_def disposals_def startedUserAgent_def)
  have r: "\<forall>s \<in> set (stopPlan startedUserAgent). snd s = Resolved"
    by (simp add: stopPlan_def disposals_def startedUserAgent_def)
  have t: "userAgentState stoppedUserAgent = Stopped"
    by (simp add: stoppedUserAgent_def)
  have c: "registerers_of startedUserAgent = [(''r1'', Resolved)]"
          "sessions_of startedUserAgent = [(''call1tagA'', Resolved)]"
          "subscriptions_of startedUserAgent = []" "publishers_of startedUserAgent = []"
          "actions startedUserAgent = []"
    by (simp_all add: startedUserAgent_def)
  from stop_serial [of startedUserAgent] s r
  have "fst (stop startedUserAgent) = Resolved
        \<and> actions (snd (stop startedUserAgent)) =
            actions startedUserAgent @ [StateChange Stopped]
            @ map (\<lambda>e. Dispose Registerers (fst e)) (registerers_of startedUserAgent)
            @ map (\<lambda>e. Dispose Sessions (fst e)) (sessions_of startedUserAgent)
            @ map (\<lambda>e. Dispose Subscriptions (fst e)) (subscriptions_of startedUserAgent)
            @ map (\<lambda>e. Dispose Publishers (fst e)) (publishers_of startedUserAgent)
            @ [DisposeTransport, DisposeCore]"
    by blast
  then have "fst (stop startedUserAgent) = Resolved
        \<and> actions (snd (stop startedUserAgent)) =
            [StateChange Stopped, Dispose Registerers ''r1'', Dispose Sessions ''call1tagA'',
             DisposeTransport, DisposeCore]"
    by (simp add: c)
  moreover from stop_serial [of stoppedUserAgent] t
  have "stop stoppedUserAgent = (Resolved, stoppedUserAgent)" by simp
  ultimately show ?thesis using s m t by blast
qed

text \<open>
  The claim as stated fails on a started user agent whose transport rejects the promise
  of \<open>disconnect()\<close> (as \<open>transitionState\<close> does with "Disconnect aborted." when
  \<open>connect()\<close> is called while the transport disconnects): \<open>stop()\<close> is rejected and the
  core is not reset.
\<close>

theorem stop_serial_counterexample:
  "userAgentState abortedDisconnectUserAgent = Started
   \<and> fst (stop abortedDisconnectUserAgent) = Rejected (Error ''Disconnect aborted.'')
   \<and> actions (snd (stop abortedDisconnectUserAgent)) =
       [StateChange Stopped, Dispose Registerers ''r1'', Dispose Sessions ''call1tagA'',
        DisposeTransport]
   \<and> DisposeCore \<notin> set (actions (snd (stop abortedDisconnectUserAgent)))"
  by (simp add: stop_def Let_def abortedDisconnectUserAgent_def startedUserAgent_def
      userAgentTransitionState_def seq_def act_def deleteEntry_def)

subsection \<open>Incoming messages\<close>

text \<open>The comparison the handler makes (the first five characters of the Call-ID are the
  instance id) says that the Call-ID begins with the instance id exactly when the id has
  five characters, the length the constructor gives it.\<close>

lemma take5_prefix:
  "length ident = 5 \<Longrightarrow> (take 5 cid = ident) = (take (length ident) cid = ident)"
  by simp

lemma take5_implies_prefix: "take 5 cid = ident \<Longrightarrow> take (length ident) cid = ident"
proof -
  assume h: "take 5 cid = ident"
  then have "length ident \<le> 5" by (metis length_take min.cobounded2)
  then have "take (length ident) (take 5 cid) = take (length ident) cid"
    by (simp add: min_def)
  with h show ?thesis by simp
qed

text \<open>
  C7. The three checks are made only while the user agent is not stopped: a stopped user
  agent drops every request before them. On a user agent that is not stopped, a request
  that lacks one of the five header fields is dropped; else, on a user agent whose
  instance id has five characters, a request with no to-tag whose Call-ID begins with the
  instance id is answered 482; else, with a declared \<open>Content-Length\<close> above the length
  of the body, it is answered 400. A request that reaches the core comes to a user agent
  that is not stopped, lacks no header field and declares no more than its body holds,
  and, where the instance id has five characters, does not begin its Call-ID with it (or
  has a to-tag). What the handler does with a Call-ID that begins with an instance id of
  another length is not part of the statement.
\<close>

theorem onTransportMessage_request_checks:
  assumes "kind message = IncomingRequest"
  shows "(userAgentState ua = Stopped \<longrightarrow> onTransportMessage toNumber ua (Some message) = Dropped)
   \<and> (userAgentState ua \<noteq> Stopped \<longrightarrow>
        (missingMandatoryHeader message \<longrightarrow>
           onTransportMessage toNumber ua (Some message) = Dropped)
      \<and> (length (options_sipjsId ua) = 5
           \<and> \<not> missingMandatoryHeader message \<and> selfLoop ua message \<longrightarrow>
           onTransportMessage toNumber ua (Some message) = ReplyStateless 482)
      \<and> (\<not> missingMandatoryHeader message \<and> \<not> selfLoop ua message
           \<and> declaredLengthExceedsBody toNumber message \<longrightarrow>
           onTransportMessage toNumber ua (Some message) = ReplyStateless 400))
   \<and> (onTransportMessage toNumber ua (Some message) = ReceiveIncomingRequestFromTransport \<longrightarrow>
        userAgentState ua \<noteq> Stopped \<and> \<not> missingMandatoryHeader message
        \<and> \<not> declaredLengthExceedsBody toNumber message
        \<and> (length (options_sipjsId ua) = 5 \<longrightarrow> \<not> selfLoop ua message))"
proof -
  have m: "missingMandatoryHeader message = (\<not> hasMinimumHeaders message)"
    by (simp add: missingMandatoryHeader_def hasMinimumHeaders_def)
  have d: "declaredLengthExceedsBody toNumber message =
             (truthy (contentLength message)
              \<and> js_lt (Num (real (str_utf8_length (message_body message))))
                      (toNumber (str (contentLength message))))"
    by (cases "contentLength message")
       (simp_all add: declaredLengthExceedsBody_def truthy_def str_def str_utf8_length_def)
  have l5: "length (options_sipjsId ua) = 5 \<Longrightarrow>
              selfLoop ua message =
                (\<not> truthy (message_toTag message)
                 \<and> take 5 (message_callId message) = options_sipjsId ua)"
    by (simp add: selfLoop_def)
  have imp: "\<not> selfLoop ua message \<Longrightarrow>
               \<not> (\<not> truthy (message_toTag message)
                  \<and> take 5 (message_callId message) = options_sipjsId ua)"
    using take5_implies_prefix[of "message_callId message" "options_sipjsId ua"]
    by (auto simp: selfLoop_def)
  have a: "userAgentState ua = Stopped \<longrightarrow> onTransportMessage toNumber ua (Some message) = Dropped"
    using assms by (simp add: onTransportMessage_def)
  have b: "userAgentState ua \<noteq> Stopped \<longrightarrow> missingMandatoryHeader message \<longrightarrow>
             onTransportMessage toNumber ua (Some message) = Dropped"
    using assms by (simp add: onTransportMessage_def m)
  have c: "userAgentState ua \<noteq> Stopped \<longrightarrow>
             length (options_sipjsId ua) = 5
               \<and> \<not> missingMandatoryHeader message \<and> selfLoop ua message \<longrightarrow>
             onTransportMessage toNumber ua (Some message) = ReplyStateless 482"
    using assms l5 by (auto simp: onTransportMessage_def m)
  have e: "userAgentState ua \<noteq> Stopped \<longrightarrow>
             \<not> missingMandatoryHeader message \<and> \<not> selfLoop ua message
               \<and> declaredLengthExceedsBody toNumber message \<longrightarrow>
             onTransportMessage toNumber ua (Some message) = ReplyStateless 400"
    using assms imp by (auto simp: onTransportMessage_def m d)
  have f: "onTransportMessage toNumber ua (Some message) = ReceiveIncomingRequestFromTransport \<longrightarrow>
        userAgentState ua \<noteq> Stopped \<and> \<not> missingMandatoryHeader message
        \<and> \<not> declaredLengthExceedsBody toNumber message
        \<and> (length (options_sipjsId ua) = 5 \<longrightarrow> \<not> selfLoop ua message)"
    using assms l5 by (auto simp: onTransportMessage_def m d split: if_splits)
  from a b c e f show ?thesis by blast
qed

theorem onTransportMessage_request_checks_witness:
  "kind loopedRequest = IncomingRequest \<and> kind shortBodyRequest = IncomingRequest
   \<and> userAgentState startedUserAgent \<noteq> Stopped
   \<and> length (options_sipjsId startedUserAgent) = 5
   \<and> \<not> missingMandatoryHeader loopedRequest \<and> selfLoop startedUserAgent loopedRequest
   \<and> onTransportMessage numberOf startedUserAgent (Some loopedRequest) = ReplyStateless 482
   \<and> \<not> missingMandatoryHeader shortBodyRequest \<and> \<not> selfLoop startedUserAgent shortBodyRequest
   \<and> declaredLengthExceedsBody numberOf shortBodyRequest
   \<and> onTransportMessage numberOf startedUserAgent (Some shortBodyRequest) = ReplyStateless 400"
proof -
  have k: "kind loopedRequest = IncomingRequest" "kind shortBodyRequest = IncomingRequest"
    by (simp_all add: loopedRequest_def shortBodyRequest_def)
  have s: "userAgentState startedUserAgent \<noteq> Stopped" by (simp add: startedUserAgent_def)
  have n: "length (options_sipjsId startedUserAgent) = 5" by (simp add: startedUserAgent_def)
  have h: "\<not> missingMandatoryHeader loopedRequest" "\<not> missingMandatoryHeader shortBodyRequest"
    by (simp_all add: missingMandatoryHeader_def loopedRequest_def shortBodyRequest_def)
  have l: "selfLoop startedUserAgent loopedRequest" "\<not> selfLoop startedUserAgent shortBodyRequest"
    by (simp_all add: selfLoop_def loopedRequest_def shortBodyRequest_def startedUserAgent_def
        truthy_def)
  have d: "declaredLengthExceedsBody numberOf shortBodyRequest"
    by (simp add: declaredLengthExceedsBody_def shortBodyRequest_def loopedRequest_def numberOf_def)
  from onTransportMessage_request_checks [OF k(1), of startedUserAgent numberOf]
       onTransportMessage_request_checks [OF k(2), of startedUserAgent numberOf]
       k s n h l d
  show ?thesis by simp
qed

text \<open>The claim as stated fails on a stopped user agent: a request with all five header
  fields that comes from this instance is dropped, not answered 482.\<close>

theorem onTransportMessage_request_checks_counterexample:
  "kind loopedRequest = IncomingRequest
   \<and> \<not> missingMandatoryHeader loopedRequest \<and> selfLoop stoppedUserAgent loopedRequest
   \<and> onTransportMessage numberOf stoppedUserAgent (Some loopedRequest) = Dropped"
  by (simp add: onTransportMessage_def missingMandatoryHeader_def selfLoop_def loopedRequest_def
      stoppedUserAgent_def startedUserAgent_def truthy_def)

text \<open>The instance id is an option of the user agent, and the handler compares the first
  five characters of the Call-ID with it whatever its length: with an id of three
  characters a request without to-tag whose Call-ID starts with the id is not answered
  482 and reaches the core.\<close>

lemma onTransportMessage_short_id:
  "kind shortIdRequest = IncomingRequest
   \<and> userAgentState shortIdUserAgent \<noteq> Stopped
   \<and> options_sipjsId shortIdUserAgent = ''abc''
   \<and> \<not> missingMandatoryHeader shortIdRequest \<and> selfLoop shortIdUserAgent shortIdRequest
   \<and> onTransportMessage numberOf shortIdUserAgent (Some shortIdRequest)
       = ReceiveIncomingRequestFromTransport"
  by (simp add: onTransportMessage_def missingMandatoryHeader_def selfLoop_def loopedRequest_def
      shortIdRequest_def shortIdUserAgent_def startedUserAgent_def truthy_def hasMinimumHeaders_def)

subsection \<open>Incoming INVITE\<close>

lemma replacesChecks_act [simp]: "replacesChecks (act a ua) request = replacesChecks ua request"
  by (simp add: replacesChecks_def act_def split: option.splits)

lemma newInvitation_fields [simp]:
  "actions (newInvitation request ua) = actions ua @ [NewInvitation]"
  "dialogs (newInvitation request ua) = dialogs ua"
  "options_sipExtensionReplaces (newInvitation request ua) = options_sipExtensionReplaces ua"
  "delegate_defined (newInvitation request ua) = delegate_defined ua"
  "delegate_onInvite (newInvitation request ua) = delegate_onInvite ua"
  "sessions_of (newInvitation request ua)
     = setEntry (invitationId request) (invitation_dispose request) (sessions_of ua)"
  by (simp_all add: newInvitation_def act_def)

lemma act_more_fields [simp]:
  "dialogs (act a ua) = dialogs ua"
  "sessions_of (act a ua) = sessions_of ua"
  "options_sipExtensionReplaces (act a ua) = options_sipExtensionReplaces ua"
  "delegate_defined (act a ua) = delegate_defined ua"
  "delegate_onInvite (act a ua) = delegate_onInvite ua"
  by (simp_all add: act_def)

lemma rejectInvitation_fields [simp]:
  "actions (rejectInvitation code request ua) = actions ua @ [Reject code]"
  "sessions_of (rejectInvitation code request ua)
     = filter (\<lambda>e. fst e \<noteq> invitationId request) (sessions_of ua)"
  by (simp_all add: rejectInvitation_def deleteEntry_def)








end
